theory Spec2Isabelle
  imports Main
begin

section \<open>HIR MVP: event lifecycle and audit trail\<close>

text \<open>
  A shallow embedding of \<^verbatim>\<open>app/main.py\<close>, \<^verbatim>\<open>app/database.py\<close> and
  \<^verbatim>\<open>app/schemas.py\<close>. The four SQL tables are lists of rows in insertion order, a
  handler is a function from the request and the database to a result and the database
  after the request, and an exception raised by a handler is the \<open>Inl\<close> branch of the
  result.
\<close>

subsection \<open>Values supplied by the environment\<close>

text \<open>
  A reading of \<^verbatim>\<open>datetime.now(timezone.utc)\<close>: its year and the microseconds elapsed
  since the start of that year. The store keeps a DateTime column as the text
  \<^verbatim>\<open>YYYY-MM-DD HH:MM:SS.ffffff\<close>, so its order is the chronological one.
\<close>

record datetime =
  year :: nat
  micros :: nat

definition dt_le :: "datetime \<Rightarrow> datetime \<Rightarrow> bool" where
  "dt_le a b = (year a < year b \<or> (year a = year b \<and> micros a \<le> micros b))"

text \<open>
  What one request reads from outside: \<open>now env k\<close> is the \<open>k\<close>-th reading of the clock
  taken while the request is served (counted from 0), \<open>uuid4 env\<close> is the text of the
  random UUID drawn by \<^verbatim>\<open>log_action\<close>.
\<close>

record env =
  now :: "nat \<Rightarrow> datetime"
  uuid4 :: string

text \<open>JSON payloads (the \<^verbatim>\<open>JSON\<close> columns and \<^verbatim>\<open>dict\<close>/\<^verbatim>\<open>list\<close> fields).\<close>

datatype json =
    JNull
  | JBool bool
  | JInt int
  | JStr string
  | JArray "json list"
  | JObject "(string \<times> json) list"

subsection \<open>Tables (\<^verbatim>\<open>app/database.py\<close>)\<close>

text \<open>
  Several tables have columns of the same name; a field of a record here carries a prefix
  for its table: \<open>e_\<close> for \<^verbatim>\<open>HEvent\<close>, \<open>s_\<close> for \<^verbatim>\<open>HStop\<close>, \<open>r_\<close> for
  \<^verbatim>\<open>Recovery\<close>, \<open>l_\<close> for \<^verbatim>\<open>ObserveLog\<close>.
\<close>

record HEvent =
  e_h_id :: string
  e_status :: string
  e_harm_type :: string
  e_harm_domain :: string
  e_description :: string
  e_severity :: string
  e_confidence :: string
  e_affected_scope :: string
  e_affected_count :: "int option"
  e_horizon :: string
  e_source_type :: string
  e_source_id :: "string option"
  e_metadata :: "(string \<times> json) list option"
  e_created_at :: datetime
  e_updated_at :: datetime

record HStop =
  s_stop_id :: string
  s_h_id :: string
  s_measure :: string
  s_status :: string
  s_scope_target :: "string option"
  s_reason :: string
  s_initiated_by :: string
  s_review_deadline :: datetime
  s_released_at :: "datetime option"
  s_release_reason :: "string option"
  s_created_at :: datetime

record Recovery =
  r_recovery_id :: string
  r_h_id :: string
  r_status :: string
  r_affected_count :: int
  r_measures :: "json list option"
  r_notes :: "string option"
  r_created_at :: datetime
  r_updated_at :: datetime

record ObserveLog =
  l_id :: nat
  l_request_id :: string
  l_module :: string
  l_action :: string
  l_target_id :: "string option"
  l_actor :: "string option"
  l_details :: "(string \<times> json) list option"
  l_timestamp :: datetime

record db =
  h_events :: "HEvent list"
  h_stops :: "HStop list"
  recoveries :: "Recovery list"
  observe_logs :: "ObserveLog list"

definition init_db :: db where
  "init_db = \<lparr>h_events = [], h_stops = [], recoveries = [], observe_logs = []\<rparr>"

subsection \<open>Request bodies (\<^verbatim>\<open>app/schemas.py\<close>)\<close>

text \<open>
  A body is the record after validation: a field with a default holds the default when
  the caller left it out, an \<^verbatim>\<open>Optional\<close> field is an \<open>option\<close>.
\<close>

record HEventCreate =
  ec_harm_type :: string
  ec_harm_domain :: string
  ec_description :: string
  ec_severity :: string
  ec_confidence :: string
  ec_affected_scope :: string
  ec_affected_count :: "int option"
  ec_horizon :: string
  ec_source_type :: string
  ec_source_id :: "string option"
  ec_metadata :: "(string \<times> json) list option"

record HEventStatusUpdate =
  su_status :: string
  su_reason :: string

record HStopCreate =
  sc_h_id :: string
  sc_measure :: string
  sc_scope_target :: "string option"
  sc_reason :: string
  sc_initiated_by :: string
  sc_review_deadline :: datetime

record HStopRelease =
  sr_reason :: string
  sr_released_by :: string

record RecoveryCreate =
  rc_h_id :: string
  rc_affected_count :: int
  rc_measures :: "json list option"
  rc_notes :: "string option"

record RecoveryUpdate =
  ru_status :: "string option"
  ru_measures :: "json list option"
  ru_notes :: "string option"

subsection \<open>Errors\<close>

text \<open>
  \<open>HTTPException code detail\<close> is raised by the handlers themselves.
  \<open>IntegrityError\<close> is what the commit of an INSERT raises when the primary key is
  already in the table; the transaction is rolled back.
  \<open>RequestValidationError\<close> is the rejection (HTTP 422) of a query parameter that
  breaks the bound declared for it.
  \<open>OverflowError\<close> is what the store's driver raises when a statement is given an
  integer that an INTEGER column cannot hold; the statement does not run and the
  transaction is rolled back.
\<close>

datatype error =
    HTTPException nat string
  | IntegrityError
  | RequestValidationError
  | OverflowError

text \<open>
  Python's \<^verbatim>\<open>int\<close> is unbounded; an INTEGER of the store is a signed 64-bit number.
  \<open>fits_integer_column\<close> is the test for a nullable column, where \<^verbatim>\<open>None\<close> is stored
  as NULL.
\<close>

definition sqlite_integer :: "int \<Rightarrow> bool" where
  "sqlite_integer n = (- (2 ^ 63) \<le> n \<and> n < 2 ^ 63)"

definition fits_integer_column :: "int option \<Rightarrow> bool" where
  "fits_integer_column v = (case v of None \<Rightarrow> True | Some n \<Rightarrow> sqlite_integer n)"

subsection \<open>Formatting of identifiers\<close>

definition digit :: "nat \<Rightarrow> char" where
  "digit d = ''0123456789'' ! d"

text \<open>\<^verbatim>\<open>str(n)\<close> of a natural number: decimal, no leading zero.\<close>

function str_nat :: "nat \<Rightarrow> string" where
  "str_nat n = (if n < 10 then [digit n] else str_nat (n div 10) @ [digit (n mod 10)])"
  by pat_completeness auto
termination
  by (relation "measure (\<lambda>n. n)") auto

declare str_nat.simps [simp del]

text \<open>\<^verbatim>\<open>f"{n:05d}"\<close>: zeros on the left up to a width of five, never a truncation.\<close>

definition format_05d :: "nat \<Rightarrow> string" where
  "format_05d n = replicate (5 - length (str_nat n)) (CHR ''0'') @ str_nat n"

definition generate_h_id :: "env \<Rightarrow> db \<Rightarrow> string" where
  "generate_h_id env d =
     (let yr = year (now env 0);
          count = length (h_events d) + 1
      in ''HIR-'' @ str_nat yr @ ''-'' @ format_05d count)"

definition generate_stop_id :: "env \<Rightarrow> db \<Rightarrow> string" where
  "generate_stop_id env d =
     (let yr = year (now env 0);
          count = length (h_stops d) + 1
      in ''STOP-'' @ str_nat yr @ ''-'' @ format_05d count)"

definition generate_recovery_id :: "env \<Rightarrow> db \<Rightarrow> string" where
  "generate_recovery_id env d =
     (let yr = year (now env 0);
          count = length (recoveries d) + 1
      in ''R0-'' @ str_nat yr @ ''-'' @ format_05d count)"

subsection \<open>Session primitives\<close>

text \<open>
  \<open>first P rows\<close> is \<^verbatim>\<open>query.filter(P).first()\<close>. \<open>update_first P f rows\<close> is the
  commit of the changes \<open>f\<close> made to the object that \<open>first\<close> returned.
\<close>

fun first :: "('a \<Rightarrow> bool) \<Rightarrow> 'a list \<Rightarrow> 'a option" where
  "first P [] = None"
| "first P (x # xs) = (if P x then Some x else first P xs)"

fun update_first :: "('a \<Rightarrow> bool) \<Rightarrow> ('a \<Rightarrow> 'a) \<Rightarrow> 'a list \<Rightarrow> 'a list" where
  "update_first P f [] = []"
| "update_first P f (x # xs) = (if P x then f x # xs else x # update_first P f xs)"

text \<open>
  The integer primary key of \<^verbatim>\<open>observe_logs\<close>: one more than the largest id in the
  table, 1 for an empty table.
\<close>

definition next_log_id :: "ObserveLog list \<Rightarrow> nat" where
  "next_log_id ls = Suc (fold max (map l_id ls) 0)"

text \<open>
  \<^verbatim>\<open>log_action\<close>; \<open>k\<close> is the index of the clock reading that the default of the
  \<^verbatim>\<open>timestamp\<close> column takes.
\<close>

definition log_action ::
  "env \<Rightarrow> nat \<Rightarrow> db \<Rightarrow> string \<Rightarrow> string \<Rightarrow> string option \<Rightarrow> string option \<Rightarrow>
   (string \<times> json) list option \<Rightarrow> db" where
  "log_action env k d module action target_id actor details =
     (let entry = \<lparr>l_id = next_log_id (observe_logs d),
                   l_request_id = take 8 (uuid4 env),
                   l_module = module,
                   l_action = action,
                   l_target_id = target_id,
                   l_actor = actor,
                   l_details = details,
                   l_timestamp = now env k\<rparr>
      in d\<lparr>observe_logs := observe_logs d @ [entry]\<rparr>)"

subsection \<open>H-Event API\<close>

definition create_event :: "env \<Rightarrow> HEventCreate \<Rightarrow> db \<Rightarrow> (error + HEvent) \<times> db" where
  "create_event env event d =
     (let h_id = generate_h_id env d;
          db_event = \<lparr>e_h_id = h_id,
                      e_status = ''registered'',
                      e_harm_type = ec_harm_type event,
                      e_harm_domain = ec_harm_domain event,
                      e_description = ec_description event,
                      e_severity = ec_severity event,
                      e_confidence = ec_confidence event,
                      e_affected_scope = ec_affected_scope event,
                      e_affected_count = ec_affected_count event,
                      e_horizon = ec_horizon event,
                      e_source_type = ec_source_type event,
                      e_source_id = ec_source_id event,
                      e_metadata = ec_metadata event,
                      e_created_at = now env 1,
                      e_updated_at = now env 2\<rparr>
      in if \<not> fits_integer_column (ec_affected_count event) then (Inl OverflowError, d)
         else if h_id \<in> set (map e_h_id (h_events d)) then (Inl IntegrityError, d)
         else
           let d1 = d\<lparr>h_events := h_events d @ [db_event]\<rparr>;
               d2 = log_action env 3 d1 ''h_event'' ''created'' (Some h_id)
                      (Some (ec_source_type event))
                      (Some [(''severity'', JStr (ec_severity event))])
           in (Inr db_event, d2))"

definition get_event :: "string \<Rightarrow> db \<Rightarrow> error + HEvent" where
  "get_event h_id d =
     (case first (\<lambda>e. e_h_id e = h_id) (h_events d) of
        None \<Rightarrow> Inl (HTTPException 404 (''H-Event '' @ h_id @ '' not found''))
      | Some event \<Rightarrow> Inr event)"

definition update_event_status ::
  "env \<Rightarrow> string \<Rightarrow> HEventStatusUpdate \<Rightarrow> db \<Rightarrow> (error + HEvent) \<times> db" where
  "update_event_status env h_id update d =
     (case first (\<lambda>e. e_h_id e = h_id) (h_events d) of
        None \<Rightarrow> (Inl (HTTPException 404 (''H-Event '' @ h_id @ '' not found'')), d)
      | Some event \<Rightarrow>
          let old_status = e_status event;
              event' = event\<lparr>e_status := su_status update, e_updated_at := now env 0\<rparr>;
              d1 = d\<lparr>h_events := update_first (\<lambda>e. e_h_id e = h_id) (\<lambda>_. event') (h_events d)\<rparr>;
              d2 = log_action env 1 d1 ''h_event'' ''status_updated'' (Some h_id) None
                     (Some [(''old'', JStr old_status),
                            (''new'', JStr (su_status update)),
                            (''reason'', JStr (su_reason update))])
          in (Inr event', d2))"

subsection \<open>H-Stop API\<close>

definition activate_stop :: "env \<Rightarrow> HStopCreate \<Rightarrow> db \<Rightarrow> (error + HStop) \<times> db" where
  "activate_stop env stop d =
     (case first (\<lambda>e. e_h_id e = sc_h_id stop) (h_events d) of
        None \<Rightarrow> (Inl (HTTPException 404 (''H-Event '' @ sc_h_id stop @ '' not found'')), d)
      | Some event \<Rightarrow>
          let stop_id = generate_stop_id env d;
              db_stop = \<lparr>s_stop_id = stop_id,
                         s_h_id = sc_h_id stop,
                         s_measure = sc_measure stop,
                         s_status = ''active'',
                         s_scope_target = sc_scope_target stop,
                         s_reason = sc_reason stop,
                         s_initiated_by = sc_initiated_by stop,
                         s_review_deadline = sc_review_deadline stop,
                         s_released_at = None,
                         s_release_reason = None,
                         s_created_at = now env 2\<rparr>;
              event' = event\<lparr>e_status := ''h_stop_active'', e_updated_at := now env 1\<rparr>
          in if stop_id \<in> set (map s_stop_id (h_stops d)) then (Inl IntegrityError, d)
             else
               let d1 = d\<lparr>h_stops := h_stops d @ [db_stop],
                          h_events := update_first (\<lambda>e. e_h_id e = sc_h_id stop) (\<lambda>_. event')
                                        (h_events d)\<rparr>;
                   d2 = log_action env 3 d1 ''h_stop'' ''activated'' (Some stop_id)
                          (Some (sc_initiated_by stop))
                          (Some [(''h_id'', JStr (sc_h_id stop)),
                                 (''measure'', JStr (sc_measure stop))])
               in (Inr db_stop, d2))"

definition release_stop ::
  "env \<Rightarrow> string \<Rightarrow> HStopRelease \<Rightarrow> db \<Rightarrow> (error + HStop) \<times> db" where
  "release_stop env stop_id release d =
     (case first (\<lambda>s. s_stop_id s = stop_id) (h_stops d) of
        None \<Rightarrow> (Inl (HTTPException 404 (''H-Stop '' @ stop_id @ '' not found'')), d)
      | Some db_stop \<Rightarrow>
          if s_status db_stop = ''released''
          then (Inl (HTTPException 400 (''H-Stop '' @ stop_id @ '' already released'')), d)
          else
            let db_stop' = db_stop\<lparr>s_status := ''released'',
                                   s_released_at := Some (now env 0),
                                   s_release_reason := Some (sr_reason release)\<rparr>;
                event = first (\<lambda>e. e_h_id e = s_h_id db_stop') (h_events d);
                hit = (case event of None \<Rightarrow> False
                       | Some e \<Rightarrow> e_status e = ''h_stop_active'');
                events' = (if hit
                           then update_first (\<lambda>e. e_h_id e = s_h_id db_stop')
                                  (\<lambda>e. e\<lparr>e_status := ''investigating'',
                                         e_updated_at := now env 1\<rparr>)
                                  (h_events d)
                           else h_events d);
                d1 = d\<lparr>h_stops := update_first (\<lambda>s. s_stop_id s = stop_id) (\<lambda>_. db_stop')
                                      (h_stops d),
                       h_events := events'\<rparr>;
                d2 = log_action env (if hit then 2 else 1) d1 ''h_stop'' ''released''
                       (Some stop_id) (Some (sr_released_by release))
                       (Some [(''reason'', JStr (sr_reason release))])
            in (Inr db_stop', d2))"

subsection \<open>R-0 Recovery API\<close>

definition initiate_recovery ::
  "env \<Rightarrow> RecoveryCreate \<Rightarrow> db \<Rightarrow> (error + Recovery) \<times> db" where
  "initiate_recovery env recovery d =
     (case first (\<lambda>e. e_h_id e = rc_h_id recovery) (h_events d) of
        None \<Rightarrow> (Inl (HTTPException 404 (''H-Event '' @ rc_h_id recovery @ '' not found'')), d)
      | Some event \<Rightarrow>
          let recovery_id = generate_recovery_id env d;
              db_recovery = \<lparr>r_recovery_id = recovery_id,
                             r_h_id = rc_h_id recovery,
                             r_status = ''initiated'',
                             r_affected_count = rc_affected_count recovery,
                             r_measures = rc_measures recovery,
                             r_notes = rc_notes recovery,
                             r_created_at = now env 2,
                             r_updated_at = now env 3\<rparr>;
              event' = event\<lparr>e_status := ''recovering'', e_updated_at := now env 1\<rparr>
          in if \<not> sqlite_integer (rc_affected_count recovery) then (Inl OverflowError, d)
             else if recovery_id \<in> set (map r_recovery_id (recoveries d))
             then (Inl IntegrityError, d)
             else
               let d1 = d\<lparr>recoveries := recoveries d @ [db_recovery],
                          h_events := update_first (\<lambda>e. e_h_id e = rc_h_id recovery)
                                        (\<lambda>_. event') (h_events d)\<rparr>;
                   d2 = log_action env 4 d1 ''r0'' ''initiated'' (Some recovery_id) None
                          (Some [(''h_id'', JStr (rc_h_id recovery)),
                                 (''affected'', JInt (rc_affected_count recovery))])
               in (Inr db_recovery, d2))"

text \<open>
  Python's truth value of an \<^verbatim>\<open>Optional\<close> string or list: \<^verbatim>\<open>None\<close> and the empty
  value are false.
\<close>

definition truthy :: "'a list option \<Rightarrow> bool" where
  "truthy v = (case v of None \<Rightarrow> False | Some xs \<Rightarrow> xs \<noteq> [])"

definition update_recovery ::
  "env \<Rightarrow> string \<Rightarrow> RecoveryUpdate \<Rightarrow> db \<Rightarrow> (error + Recovery) \<times> db" where
  "update_recovery env recovery_id update d =
     (case first (\<lambda>r. r_recovery_id r = recovery_id) (recoveries d) of
        None \<Rightarrow> (Inl (HTTPException 404 (''Recovery '' @ recovery_id @ '' not found'')), d)
      | Some db_recovery \<Rightarrow>
          let r1 = (if truthy (ru_status update)
                    then db_recovery\<lparr>r_status := the (ru_status update)\<rparr> else db_recovery);
              r2 = (if truthy (ru_measures update)
                    then r1\<lparr>r_measures := ru_measures update\<rparr> else r1);
              r3 = (if truthy (ru_notes update)
                    then r2\<lparr>r_notes := ru_notes update\<rparr> else r2);
              r4 = r3\<lparr>r_updated_at := now env 0\<rparr>;
              d1 = d\<lparr>recoveries := update_first (\<lambda>r. r_recovery_id r = recovery_id) (\<lambda>_. r4)
                                       (recoveries d)\<rparr>;
              d2 = log_action env 1 d1 ''r0'' ''updated'' (Some recovery_id) None
                     (Some [(''status'', (case ru_status update of None \<Rightarrow> JNull
                                          | Some s \<Rightarrow> JStr s))])
          in (Inr r4, d2))"

subsection \<open>HIR-Observe API\<close>

text \<open>
  \<^verbatim>\<open>order_by(ObserveLog.timestamp.desc())\<close>: an insertion sort, newest first. The order
  among entries of equal timestamp is the store's choice; here they keep their order of
  insertion.
\<close>

fun insert_desc :: "ObserveLog \<Rightarrow> ObserveLog list \<Rightarrow> ObserveLog list" where
  "insert_desc x [] = [x]"
| "insert_desc x (y # ys) =
     (if dt_le (l_timestamp y) (l_timestamp x) then x # y # ys else y # insert_desc x ys)"

definition order_by_timestamp_desc :: "ObserveLog list \<Rightarrow> ObserveLog list" where
  "order_by_timestamp_desc ls = foldr insert_desc ls []"

text \<open>
  \<^verbatim>\<open>.limit(n)\<close> on SQLite: the first \<open>n\<close> rows, and every row when \<open>n\<close> is negative.
  The limit is given to the statement as an integer, so it must be one that the store
  can hold.
\<close>

definition limit_rows :: "int \<Rightarrow> 'a list \<Rightarrow> 'a list" where
  "limit_rows n rows = (if n < 0 then rows else take (nat n) rows)"

text \<open>
  \<^verbatim>\<open>get_logs\<close>. The parameter \<open>limit\<close> is the query parameter as the caller sent it,
  \<open>None\<close> when it is left out; it is declared \<^verbatim>\<open>Query(default=100, le=1000)\<close>.
  A filter applies when its parameter is a non-empty string.
\<close>

definition get_logs ::
  "string option \<Rightarrow> string option \<Rightarrow> int option \<Rightarrow> db \<Rightarrow> error + ObserveLog list" where
  "get_logs module target_id limit d =
     (let lim = (case limit of None \<Rightarrow> 100 | Some n \<Rightarrow> n)
      in if lim > 1000 then Inl RequestValidationError
         else if \<not> sqlite_integer lim then Inl OverflowError
         else
           let q0 = observe_logs d;
               q1 = (if truthy module then filter (\<lambda>l. l_module l = the module) q0 else q0);
               q2 = (if truthy target_id then filter (\<lambda>l. l_target_id l = target_id) q1 else q1)
           in Inr (limit_rows lim (order_by_timestamp_desc q2)))"

subsection \<open>Reading an identifier back\<close>

text \<open>
  Used in the proofs only: the value of a decimal string, and the sequence number of an
  identifier (the digits after its last hyphen).
\<close>

definition digit_val :: "char \<Rightarrow> nat" where
  "digit_val c = length (takeWhile (\<lambda>x. x \<noteq> c) ''0123456789'')"

definition int_of_str :: "string \<Rightarrow> nat" where
  "int_of_str s = foldl (\<lambda>a c. 10 * a + digit_val c) 0 s"

definition seq_of :: "string \<Rightarrow> nat" where
  "seq_of s = int_of_str (rev (takeWhile (\<lambda>c. c \<noteq> CHR ''-'') (rev s)))"

definition is_digit :: "char \<Rightarrow> bool" where
  "is_digit c = (c \<in> set ''0123456789'')"

subsection \<open>Stores that the service can reach\<close>

text \<open>
  The stores that the service can be in: the empty one, and the store after any request
  served on such a store.
\<close>

inductive reachable :: "db \<Rightarrow> bool" where
  init: "reachable init_db"
| create_event: "reachable d \<Longrightarrow> reachable (snd (create_event env event d))"
| update_event_status: "reachable d \<Longrightarrow> reachable (snd (update_event_status env h_id su d))"
| activate_stop: "reachable d \<Longrightarrow> reachable (snd (activate_stop env stop d))"
| release_stop: "reachable d \<Longrightarrow> reachable (snd (release_stop env stop_id release d))"
| initiate_recovery: "reachable d \<Longrightarrow> reachable (snd (initiate_recovery env recovery d))"
| update_recovery: "reachable d \<Longrightarrow> reachable (snd (update_recovery env recovery_id ru d))"

text \<open>
  The primary keys of a store that the handlers have filled from the empty one: the
  \<open>n\<close>-th row of a table carries the sequence number \<open>n\<close>.
\<close>

definition pk_sequential :: "db \<Rightarrow> bool" where
  "pk_sequential d =
     (map (\<lambda>e. seq_of (e_h_id e)) (h_events d) = [1..<Suc (length (h_events d))] \<and>
      map (\<lambda>s. seq_of (s_stop_id s)) (h_stops d) = [1..<Suc (length (h_stops d))] \<and>
      map (\<lambda>r. seq_of (r_recovery_id r)) (recoveries d) = [1..<Suc (length (recoveries d))])"

subsection \<open>Properties named by the specification\<close>

text \<open>
  The pattern \<^verbatim>\<open>HIR-<4-digit-year>-<5-digit-seq>\<close>: fourteen characters, digits but
  for the prefix and the hyphen after the year.
\<close>

definition matches_h_id_pattern :: "string \<Rightarrow> bool" where
  "matches_h_id_pattern s =
     (length s = 14 \<and> take 4 s = ''HIR-'' \<and> list_all is_digit (take 4 (drop 4 s)) \<and>
      take 1 (drop 8 s) = ''-'' \<and> list_all is_digit (drop 9 s))"

text \<open>The order asked of the audit query: each entry is at least as new as those after it.\<close>

definition newest_first :: "ObserveLog list \<Rightarrow> bool" where
  "newest_first ls = sorted_wrt (\<lambda>a b. dt_le (l_timestamp b) (l_timestamp a)) ls"

subsection \<open>Sample data\<close>

text \<open>
  A clock, request bodies and stores on which the theorems below are instantiated:
  a store with one event, one stop, one recovery and one audit entry, and variants of it.
\<close>

definition env0 :: env where
  "env0 = \<lparr>now = (\<lambda>k. \<lparr>year = 2026, micros = 1000 + k\<rparr>),
           uuid4 = ''1b9d6bcd-bbfd-4b2d-9b5d-ab8dfbbd4bed''\<rparr>"

definition sample_event :: HEvent where
  "sample_event = \<lparr>e_h_id = ''HIR-2026-00001'', e_status = ''h_stop_active'',
     e_harm_type = ''systemic'', e_harm_domain = ''ai_recommendation'',
     e_description = ''extreme content'', e_severity = ''critical'',
     e_confidence = ''high'', e_affected_scope = ''population'',
     e_affected_count = Some 50000, e_horizon = ''ongoing'',
     e_source_type = ''automated'', e_source_id = Some ''monitor-fairness-v2'',
     e_metadata = None, e_created_at = \<lparr>year = 2026, micros = 1\<rparr>,
     e_updated_at = \<lparr>year = 2026, micros = 11\<rparr>\<rparr>"

definition sample_stop :: HStop where
  "sample_stop = \<lparr>s_stop_id = ''STOP-2026-00001'', s_h_id = ''HIR-2026-00001'',
     s_measure = ''scope_reduction'', s_status = ''active'',
     s_scope_target = Some ''recommendation-engine-v3'', s_reason = ''threshold exceeded'',
     s_initiated_by = ''system'', s_review_deadline = \<lparr>year = 2026, micros = 86400000000\<rparr>,
     s_released_at = None, s_release_reason = None,
     s_created_at = \<lparr>year = 2026, micros = 12\<rparr>\<rparr>"

definition sample_recovery :: Recovery where
  "sample_recovery = \<lparr>r_recovery_id = ''R0-2026-00001'', r_h_id = ''HIR-2026-00001'',
     r_status = ''initiated'', r_affected_count = 50000,
     r_measures = Some [JObject [(''type'', JStr ''access_restoration''),
                                 (''status'', JStr ''in_progress'')]],
     r_notes = Some ''stabilize affected users'',
     r_created_at = \<lparr>year = 2026, micros = 22\<rparr>,
     r_updated_at = \<lparr>year = 2026, micros = 23\<rparr>\<rparr>"

definition sample_log :: ObserveLog where
  "sample_log = \<lparr>l_id = 1, l_request_id = ''0a1b2c3d'', l_module = ''h_event'',
     l_action = ''created'', l_target_id = Some ''HIR-2026-00001'',
     l_actor = Some ''automated'', l_details = Some [(''severity'', JStr ''critical'')],
     l_timestamp = \<lparr>year = 2026, micros = 3\<rparr>\<rparr>"

definition sample_db :: db where
  "sample_db = \<lparr>h_events = [sample_event], h_stops = [sample_stop],
     recoveries = [sample_recovery], observe_logs = [sample_log]\<rparr>"

definition event_req :: HEventCreate where
  "event_req = \<lparr>ec_harm_type = ''direct'', ec_harm_domain = ''payments'',
     ec_description = ''double charge'', ec_severity = ''high'',
     ec_confidence = ''confirmed'', ec_affected_scope = ''individual'',
     ec_affected_count = None, ec_horizon = ''immediate'',
     ec_source_type = ''human'', ec_source_id = None, ec_metadata = None\<rparr>"

definition stop_req :: HStopCreate where
  "stop_req = \<lparr>sc_h_id = ''HIR-2026-00001'', sc_measure = ''pause'',
     sc_scope_target = None, sc_reason = ''second halt'',
     sc_initiated_by = ''operator'',
     sc_review_deadline = \<lparr>year = 2026, micros = 172800000000\<rparr>\<rparr>"

definition release_req :: HStopRelease where
  "release_req = \<lparr>sr_reason = ''fixed'', sr_released_by = ''operator-lead''\<rparr>"

definition recovery_req :: RecoveryCreate where
  "recovery_req = \<lparr>rc_h_id = ''HIR-2026-00001'', rc_affected_count = 120,
     rc_measures = None, rc_notes = Some ''refunds issued''\<rparr>"

definition status_only :: RecoveryUpdate where
  "status_only = \<lparr>ru_status = Some ''in_progress'', ru_measures = None, ru_notes = None\<rparr>"

definition empty_update :: RecoveryUpdate where
  "empty_update = \<lparr>ru_status = None, ru_measures = Some [], ru_notes = Some ''''\<rparr>"

definition odd_status :: HEventStatusUpdate where
  "odd_status = \<lparr>su_status = ''archived'', su_reason = ''housekeeping''\<rparr>"

definition extended_db :: db where
  "extended_db = sample_db\<lparr>h_stops := [sample_stop\<lparr>s_status := ''extended''\<rparr>],
                            h_events := [sample_event\<lparr>e_status := ''recovering''\<rparr>]\<rparr>"

definition newer_log :: ObserveLog where
  "newer_log = \<lparr>l_id = 2, l_request_id = ''4e5f6a7b'', l_module = ''h_stop'',
     l_action = ''activated'', l_target_id = Some ''STOP-2026-00001'',
     l_actor = Some ''system'',
     l_details = Some [(''h_id'', JStr ''HIR-2026-00001''), (''measure'', JStr ''pause'')],
     l_timestamp = \<lparr>year = 2026, micros = 14\<rparr>\<rparr>"

definition two_logs_db :: db where
  "two_logs_db = sample_db\<lparr>observe_logs := [sample_log, newer_log]\<rparr>"

text \<open>A store that holds 99999 events, numbered as the service numbers them.\<close>

definition numbered_event :: "nat \<Rightarrow> HEvent" where
  "numbered_event n = sample_event\<lparr>e_h_id := ''HIR-2026-'' @ format_05d n\<rparr>"

definition full_db :: db where
  "full_db = \<lparr>h_events = map numbered_event [1..<100000], h_stops = [], recoveries = [],
              observe_logs = []\<rparr>"

section \<open>Properties\<close>

subsection \<open>Session primitives\<close>

lemma first_update_first:
  "(\<And>x. P x \<Longrightarrow> P (f x)) \<Longrightarrow> first P (update_first P f xs) = map_option f (first P xs)"
  by (induction xs) auto

lemma first_Some_P: "first P xs = Some x \<Longrightarrow> P x"
  by (induction xs) (auto split: if_splits)

lemma length_update_first: "length (update_first P f xs) = length xs"
  by (induction xs) auto

lemma observe_logs_log_action:
  "observe_logs (log_action env k d m a t ac de) =
   observe_logs d @ [\<lparr>l_id = next_log_id (observe_logs d), l_request_id = take 8 (uuid4 env),
      l_module = m, l_action = a, l_target_id = t, l_actor = ac, l_details = de,
      l_timestamp = now env k\<rparr>]"
  by (simp add: log_action_def)

lemma tables_log_action [simp]:
  "h_events (log_action env k d m a t ac de) = h_events d"
  "h_stops (log_action env k d m a t ac de) = h_stops d"
  "recoveries (log_action env k d m a t ac de) = recoveries d"
  by (simp_all add: log_action_def)

subsection \<open>Identifiers\<close>

lemma lt10_cases: "d < 10 \<Longrightarrow> d \<in> {0, 1, 2, 3, 4, 5, 6, 7, 8, 9::nat}"
  by auto

lemma digit_val_digit: "d < 10 \<Longrightarrow> digit_val (digit d) = d"
  using lt10_cases [of d] by (auto simp: digit_val_def digit_def)

lemma is_digit_digit: "d < 10 \<Longrightarrow> is_digit (digit d)"
  using lt10_cases [of d] by (auto simp: is_digit_def digit_def)

lemma int_of_str_snoc: "int_of_str (xs @ [c]) = 10 * int_of_str xs + digit_val c"
  by (simp add: int_of_str_def)

lemma int_of_str_str_nat: "int_of_str (str_nat n) = n"
proof (induction n rule: str_nat.induct)
  case (1 n)
  show ?case
  proof (cases "n < 10")
    case True
    then show ?thesis
      by (subst str_nat.simps) (simp add: int_of_str_def digit_val_digit)
  next
    case False
    then have "int_of_str (str_nat n) = 10 * (n div 10) + n mod 10"
      by (subst str_nat.simps) (simp add: int_of_str_snoc "1.IH" digit_val_digit)
    then show ?thesis by simp
  qed
qed

lemma digits_str_nat: "list_all is_digit (str_nat n)"
proof (induction n rule: str_nat.induct)
  case (1 n)
  show ?case
  proof (cases "n < 10")
    case True
    then show ?thesis
      by (subst str_nat.simps) (simp add: is_digit_digit)
  next
    case False
    then show ?thesis
      by (subst str_nat.simps) (simp add: "1.IH" is_digit_digit)
  qed
qed

lemma int_of_str_zeros: "int_of_str (replicate k (CHR ''0'') @ s) = int_of_str s"
proof -
  have "foldl (\<lambda>a c. 10 * a + digit_val c) 0 (replicate k (CHR ''0'')) = 0"
    by (induction k) (simp_all add: digit_val_def)
  then show ?thesis by (simp add: int_of_str_def)
qed

lemma int_of_str_format_05d: "int_of_str (format_05d n) = n"
  by (simp add: format_05d_def int_of_str_zeros int_of_str_str_nat)

lemma digits_format_05d: "list_all is_digit (format_05d n)"
proof -
  have "list_all is_digit (replicate k (CHR ''0''))" for k
    by (simp add: list_all_iff is_digit_def)
  then show ?thesis
    by (simp add: format_05d_def digits_str_nat)
qed

lemma is_digit_not_dash: "is_digit c \<Longrightarrow> c \<noteq> CHR ''-''"
  by (auto simp: is_digit_def)

lemma takeWhile_to_dash:
  "CHR ''-'' \<notin> set xs \<Longrightarrow> takeWhile (\<lambda>c. c \<noteq> CHR ''-'') (xs @ CHR ''-'' # ys) = xs"
  by (induction xs) auto

lemma seq_of_id:
  assumes "list_all is_digit b"
  shows "seq_of (p @ ''-'' @ b) = int_of_str b"
proof -
  from assms have "CHR ''-'' \<notin> set (rev b)"
    using is_digit_not_dash by (auto simp: list_all_iff)
  then have "takeWhile (\<lambda>c. c \<noteq> CHR ''-'') (rev b @ CHR ''-'' # rev p) = rev b"
    by (rule takeWhile_to_dash)
  moreover have "rev (p @ ''-'' @ b) = rev b @ CHR ''-'' # rev p"
    by simp
  ultimately show ?thesis
    by (simp only: seq_of_def rev_rev_ident)
qed

lemma seq_of_generate_h_id: "seq_of (generate_h_id env d) = Suc (length (h_events d))"
  using seq_of_id [OF digits_format_05d, of "''HIR-'' @ str_nat (year (now env 0))"]
  by (simp add: generate_h_id_def int_of_str_format_05d)

lemma seq_of_generate_stop_id: "seq_of (generate_stop_id env d) = Suc (length (h_stops d))"
  using seq_of_id [OF digits_format_05d, of "''STOP-'' @ str_nat (year (now env 0))"]
  by (simp add: generate_stop_id_def int_of_str_format_05d)

lemma seq_of_generate_recovery_id:
  "seq_of (generate_recovery_id env d) = Suc (length (recoveries d))"
  using seq_of_id [OF digits_format_05d, of "''R0-'' @ str_nat (year (now env 0))"]
  by (simp add: generate_recovery_id_def int_of_str_format_05d)

lemma length_str_nat_small: "n < 10 \<Longrightarrow> length (str_nat n) = 1"
  by (subst str_nat.simps) simp

lemma length_str_nat_step: "10 \<le> n \<Longrightarrow> length (str_nat n) = Suc (length (str_nat (n div 10)))"
  by (subst str_nat.simps) simp

lemma length_str_nat_upper: "n < 10 ^ Suc k \<Longrightarrow> length (str_nat n) \<le> Suc k"
proof (induction k arbitrary: n)
  case 0
  then show ?case by (simp add: length_str_nat_small)
next
  case (Suc k)
  show ?case
  proof (cases "n < 10")
    case True
    then show ?thesis by (simp add: length_str_nat_small)
  next
    case False
    from Suc.prems have "n div 10 < 10 ^ Suc k"
      by (simp add: less_mult_imp_div_less mult.commute)
    from Suc.IH [OF this] False show ?thesis
      by (simp add: length_str_nat_step)
  qed
qed

lemma length_str_nat_lower: "10 ^ k \<le> n \<Longrightarrow> k < length (str_nat n)"
proof (induction k arbitrary: n)
  case 0
  then show ?case by (cases "n < 10") (simp_all add: length_str_nat_small length_str_nat_step)
next
  case (Suc k)
  then have ge: "10 \<le> n"
  proof -
    have "(10::nat) \<le> 10 ^ Suc k" by simp
    with Suc.prems show ?thesis by linarith
  qed
  from Suc.prems have "10 ^ k \<le> n div 10"
    by (simp add: less_eq_div_iff_mult_less_eq mult.commute)
  from Suc.IH [OF this] ge show ?case
    by (simp add: length_str_nat_step)
qed

lemma length_year: "1000 \<le> n \<Longrightarrow> n \<le> 9999 \<Longrightarrow> length (str_nat n) = 4"
  using length_str_nat_upper [of n 3] length_str_nat_lower [of 3 n] by simp

lemma length_format_05d: "n < 100000 \<Longrightarrow> length (format_05d n) = 5"
  using length_str_nat_upper [of n 4] by (simp add: format_05d_def)

subsection \<open>Releasing a stop\<close>

lemma release_stop_released:
  assumes "first (\<lambda>s. s_stop_id s = stop_id) (h_stops d) = Some s" "s_status s = ''released''"
  shows "release_stop env stop_id release d =
         (Inl (HTTPException 400 (''H-Stop '' @ stop_id @ '' already released'')), d)"
  using assms by (simp add: release_stop_def)

lemma release_stop_ok:
  assumes "first (\<lambda>s. s_stop_id s = stop_id) (h_stops d) = Some s" "s_status s \<noteq> ''released''"
  shows "fst (release_stop env stop_id release d) =
         Inr (s\<lparr>s_status := ''released'', s_released_at := Some (now env 0),
                s_release_reason := Some (sr_reason release)\<rparr>)"
    and "h_stops (snd (release_stop env stop_id release d)) =
         update_first (\<lambda>s. s_stop_id s = stop_id)
           (\<lambda>_. s\<lparr>s_status := ''released'', s_released_at := Some (now env 0),
                s_release_reason := Some (sr_reason release)\<rparr>) (h_stops d)"
  using assms by (simp_all add: release_stop_def Let_def)

lemma release_stop_Inr_D:
  assumes "release_stop env stop_id release d = (Inr S', d')"
  shows "\<exists>S. first (\<lambda>s. s_stop_id s = stop_id) (h_stops d) = Some S \<and>
             s_status S \<noteq> ''released'' \<and>
             S' = S\<lparr>s_status := ''released'', s_released_at := Some (now env 0),
                     s_release_reason := Some (sr_reason release)\<rparr> \<and>
             h_stops d' = update_first (\<lambda>s. s_stop_id s = stop_id) (\<lambda>_. S') (h_stops d)"
proof (cases "first (\<lambda>s. s_stop_id s = stop_id) (h_stops d)")
  case None
  with assms show ?thesis by (simp add: release_stop_def)
next
  case (Some S)
  show ?thesis
  proof (cases "s_status S = ''released''")
    case True
    with Some assms show ?thesis by (simp add: release_stop_def)
  next
    case False
    from release_stop_ok [OF Some False, of env release] assms Some False
    show ?thesis by simp
  qed
qed

lemma first_after_update:
  assumes "first P xs = Some x" "P y"
  shows "first P (update_first P (\<lambda>_. y) xs) = Some y"
  using assms by (induction xs) (auto split: if_splits)

text \<open>
  Claim C1. A stop whose status is \<open>released\<close> cannot be released: the handler raises
  the HTTP error 400 "already released" and the store stays as it is. After a successful
  release the stored stop is the released one, and a second release of it, by any caller
  at any time, raises that error and leaves the store, hence the stop's status,
  \<open>released_at\<close> and \<open>release_reason\<close>, unchanged.
\<close>

theorem release_stop_released_rejected:
  "(first (\<lambda>s. s_stop_id s = stop_id) (h_stops d) = Some S \<and> s_status S = ''released'' \<longrightarrow>
      release_stop env stop_id release d =
        (Inl (HTTPException 400 (''H-Stop '' @ stop_id @ '' already released'')), d)) \<and>
   (release_stop env stop_id release d = (Inr S', d') \<longrightarrow>
      first (\<lambda>s. s_stop_id s = stop_id) (h_stops d') = Some S' \<and>
      s_status S' = ''released'' \<and>
      release_stop env2 stop_id release2 d' =
        (Inl (HTTPException 400 (''H-Stop '' @ stop_id @ '' already released'')), d'))"
proof (intro conjI impI)
  assume "first (\<lambda>s. s_stop_id s = stop_id) (h_stops d) = Some S \<and> s_status S = ''released''"
  then show "release_stop env stop_id release d =
        (Inl (HTTPException 400 (''H-Stop '' @ stop_id @ '' already released'')), d)"
    by (simp add: release_stop_released)
next
  assume ok: "release_stop env stop_id release d = (Inr S', d')"
  from release_stop_Inr_D [OF ok] obtain S0 where
    S0: "first (\<lambda>s. s_stop_id s = stop_id) (h_stops d) = Some S0"
    and S': "S' = S0\<lparr>s_status := ''released'', s_released_at := Some (now env 0),
                     s_release_reason := Some (sr_reason release)\<rparr>"
    and stops: "h_stops d' = update_first (\<lambda>s. s_stop_id s = stop_id) (\<lambda>_. S') (h_stops d)"
    by blast
  from first_Some_P [OF S0] S' have key: "s_stop_id S' = stop_id" by simp
  from first_after_update [OF S0, of S'] key stops
  show found: "first (\<lambda>s. s_stop_id s = stop_id) (h_stops d') = Some S'" by simp
  from S' show rel: "s_status S' = ''released''" by simp
  from release_stop_released [OF found rel]
  show "release_stop env2 stop_id release2 d' =
        (Inl (HTTPException 400 (''H-Stop '' @ stop_id @ '' already released'')), d')" .
qed

theorem release_stop_released_rejected_witness:
  "fst (release_stop env0 ''STOP-2026-00001'' release_req sample_db) =
     Inr (sample_stop\<lparr>s_status := ''released'', s_released_at := Some (now env0 0),
                      s_release_reason := Some ''fixed''\<rparr>) \<and>
   fst (release_stop env0 ''STOP-2026-00001'' release_req
         (snd (release_stop env0 ''STOP-2026-00001'' release_req sample_db))) =
     Inl (HTTPException 400 ''H-Stop STOP-2026-00001 already released'')"
proof -
  have f: "first (\<lambda>s. s_stop_id s = ''STOP-2026-00001'') (h_stops sample_db) = Some sample_stop"
    by (simp add: sample_db_def sample_stop_def)
  have a: "s_status sample_stop \<noteq> ''released''"
    by (simp add: sample_stop_def)
  have r: "fst (release_stop env0 ''STOP-2026-00001'' release_req sample_db) =
     Inr (sample_stop\<lparr>s_status := ''released'', s_released_at := Some (now env0 0),
                      s_release_reason := Some ''fixed''\<rparr>)"
    using release_stop_ok(1) [OF f a, of env0 release_req] by (simp add: release_req_def)
  then obtain d' where d': "release_stop env0 ''STOP-2026-00001'' release_req sample_db =
     (Inr (sample_stop\<lparr>s_status := ''released'', s_released_at := Some (now env0 0),
                      s_release_reason := Some ''fixed''\<rparr>), d')"
    by (cases "release_stop env0 ''STOP-2026-00001'' release_req sample_db") simp
  from release_stop_released_rejected [of "''STOP-2026-00001''" sample_db sample_stop env0
      release_req _ d' env0 release_req] d'
  show ?thesis by simp
qed

lemma release_stop_events:
  assumes "first (\<lambda>s. s_stop_id s = stop_id) (h_stops d) = Some S" "s_status S \<noteq> ''released''"
  shows "h_events (snd (release_stop env stop_id release d)) =
         (if (case first (\<lambda>e. e_h_id e = s_h_id S) (h_events d) of
                None \<Rightarrow> False | Some e \<Rightarrow> e_status e = ''h_stop_active'')
          then update_first (\<lambda>e. e_h_id e = s_h_id S)
                 (\<lambda>e. e\<lparr>e_status := ''investigating'', e_updated_at := now env 1\<rparr>) (h_events d)
          else h_events d)"
  using assms by (simp add: release_stop_def Let_def)

lemma release_stop_stored:
  assumes "first (\<lambda>s. s_stop_id s = stop_id) (h_stops d) = Some S" "s_status S \<noteq> ''released''"
  shows "first (\<lambda>s. s_stop_id s = stop_id) (h_stops (snd (release_stop env stop_id release d))) =
         Some (S\<lparr>s_status := ''released'', s_released_at := Some (now env 0),
                 s_release_reason := Some (sr_reason release)\<rparr>)"
proof -
  from first_Some_P [OF assms(1)] have "s_stop_id (S\<lparr>s_status := ''released'',
      s_released_at := Some (now env 0), s_release_reason := Some (sr_reason release)\<rparr>) = stop_id"
    by simp
  from first_after_update [OF assms(1), of _ , OF this] release_stop_ok(2) [OF assms]
  show ?thesis by simp
qed

text \<open>
  Claim C3. Releasing a stop \<open>S\<close> whose status is not \<open>released\<close> succeeds and stores
  \<open>S\<close> with status \<open>released\<close>. When the event that \<open>S\<close> refers to exists and has
  status \<open>h_stop_active\<close>, that event gets status \<open>investigating\<close> and a fresh
  \<open>updated_at\<close>, and no other event changes; when the event has another status, or no
  event has that id, the table of events is left as it was.
\<close>

theorem release_stop_event_side:
  assumes "first (\<lambda>s. s_stop_id s = stop_id) (h_stops d) = Some S"
    and "s_status S \<noteq> ''released''"
  shows "fst (release_stop env stop_id release d) =
           Inr (S\<lparr>s_status := ''released'', s_released_at := Some (now env 0),
                   s_release_reason := Some (sr_reason release)\<rparr>) \<and>
         first (\<lambda>s. s_stop_id s = stop_id) (h_stops (snd (release_stop env stop_id release d))) =
           Some (S\<lparr>s_status := ''released'', s_released_at := Some (now env 0),
                   s_release_reason := Some (sr_reason release)\<rparr>) \<and>
         (\<forall>E. first (\<lambda>e. e_h_id e = s_h_id S) (h_events d) = Some E \<and>
              e_status E = ''h_stop_active'' \<longrightarrow>
              first (\<lambda>e. e_h_id e = s_h_id S) (h_events (snd (release_stop env stop_id release d))) =
                Some (E\<lparr>e_status := ''investigating'', e_updated_at := now env 1\<rparr>) \<and>
              h_events (snd (release_stop env stop_id release d)) =
                update_first (\<lambda>e. e_h_id e = s_h_id S)
                  (\<lambda>_. E\<lparr>e_status := ''investigating'', e_updated_at := now env 1\<rparr>)
                  (h_events d)) \<and>
         (\<forall>E. first (\<lambda>e. e_h_id e = s_h_id S) (h_events d) = Some E \<and>
              e_status E \<noteq> ''h_stop_active'' \<longrightarrow>
              h_events (snd (release_stop env stop_id release d)) = h_events d) \<and>
         (first (\<lambda>e. e_h_id e = s_h_id S) (h_events d) = None \<longrightarrow>
              h_events (snd (release_stop env stop_id release d)) = h_events d)"
proof (intro conjI allI impI)
  show "fst (release_stop env stop_id release d) =
           Inr (S\<lparr>s_status := ''released'', s_released_at := Some (now env 0),
                   s_release_reason := Some (sr_reason release)\<rparr>)"
    by (rule release_stop_ok(1) [OF assms])
  show "first (\<lambda>s. s_stop_id s = stop_id) (h_stops (snd (release_stop env stop_id release d))) =
           Some (S\<lparr>s_status := ''released'', s_released_at := Some (now env 0),
                   s_release_reason := Some (sr_reason release)\<rparr>)"
    by (rule release_stop_stored [OF assms])
next
  fix E
  assume E: "first (\<lambda>e. e_h_id e = s_h_id S) (h_events d) = Some E \<and> e_status E = ''h_stop_active''"
  then have ev: "h_events (snd (release_stop env stop_id release d)) =
      update_first (\<lambda>e. e_h_id e = s_h_id S)
        (\<lambda>e. e\<lparr>e_status := ''investigating'', e_updated_at := now env 1\<rparr>) (h_events d)"
    by (simp add: release_stop_events [OF assms])
  have "first (\<lambda>e. e_h_id e = s_h_id S)
          (update_first (\<lambda>e. e_h_id e = s_h_id S)
            (\<lambda>e. e\<lparr>e_status := ''investigating'', e_updated_at := now env 1\<rparr>) (h_events d)) =
        map_option (\<lambda>e. e\<lparr>e_status := ''investigating'', e_updated_at := now env 1\<rparr>)
          (first (\<lambda>e. e_h_id e = s_h_id S) (h_events d))"
    by (rule first_update_first) simp
  with ev E
  show "first (\<lambda>e. e_h_id e = s_h_id S) (h_events (snd (release_stop env stop_id release d))) =
          Some (E\<lparr>e_status := ''investigating'', e_updated_at := now env 1\<rparr>)"
    by simp
  have "update_first P f xs = update_first P (\<lambda>_. f x) xs" if "first P xs = Some x"
    for P :: "HEvent \<Rightarrow> bool" and f xs x
    using that by (induction xs) (auto split: if_splits)
  from this [of "\<lambda>e. e_h_id e = s_h_id S" "h_events d" E] E ev
  show "h_events (snd (release_stop env stop_id release d)) =
          update_first (\<lambda>e. e_h_id e = s_h_id S)
            (\<lambda>_. E\<lparr>e_status := ''investigating'', e_updated_at := now env 1\<rparr>) (h_events d)"
    by simp
next
  fix E
  assume "first (\<lambda>e. e_h_id e = s_h_id S) (h_events d) = Some E \<and> e_status E \<noteq> ''h_stop_active''"
  then show "h_events (snd (release_stop env stop_id release d)) = h_events d"
    by (simp add: release_stop_events [OF assms])
next
  assume "first (\<lambda>e. e_h_id e = s_h_id S) (h_events d) = None"
  then show "h_events (snd (release_stop env stop_id release d)) = h_events d"
    by (simp add: release_stop_events [OF assms])
qed

theorem release_stop_event_side_witness:
  "fst (release_stop env0 ''STOP-2026-00001'' release_req sample_db) =
     Inr (sample_stop\<lparr>s_status := ''released'',
                      s_released_at := Some \<lparr>year = 2026, micros = 1000\<rparr>,
                      s_release_reason := Some ''fixed''\<rparr>) \<and>
   h_events (snd (release_stop env0 ''STOP-2026-00001'' release_req sample_db)) =
     [sample_event\<lparr>e_status := ''investigating'',
                    e_updated_at := \<lparr>year = 2026, micros = 1001\<rparr>\<rparr>] \<and>
   h_events (snd (release_stop env0 ''STOP-2026-00001'' release_req extended_db)) =
     [sample_event\<lparr>e_status := ''recovering''\<rparr>]"
proof -
  have f: "first (\<lambda>s. s_stop_id s = ''STOP-2026-00001'') (h_stops sample_db) = Some sample_stop"
    by (simp add: sample_db_def sample_stop_def)
  have a: "s_status sample_stop \<noteq> ''released''"
    by (simp add: sample_stop_def)
  have e: "first (\<lambda>e. e_h_id e = s_h_id sample_stop) (h_events sample_db) = Some sample_event \<and>
           e_status sample_event = ''h_stop_active''"
    by (simp add: sample_db_def sample_stop_def sample_event_def)
  have f': "first (\<lambda>s. s_stop_id s = ''STOP-2026-00001'') (h_stops extended_db) =
            Some (sample_stop\<lparr>s_status := ''extended''\<rparr>)"
    by (simp add: extended_db_def sample_stop_def)
  have a': "s_status (sample_stop\<lparr>s_status := ''extended''\<rparr>) \<noteq> ''released''"
    by simp
  have e': "first (\<lambda>e. e_h_id e = s_h_id (sample_stop\<lparr>s_status := ''extended''\<rparr>))
              (h_events extended_db) = Some (sample_event\<lparr>e_status := ''recovering''\<rparr>) \<and>
            e_status (sample_event\<lparr>e_status := ''recovering''\<rparr>) \<noteq> ''h_stop_active''"
    by (simp add: extended_db_def sample_stop_def sample_event_def)
  have ev: "h_events sample_db = [sample_event]" "h_events extended_db = [sample_event\<lparr>e_status := ''recovering''\<rparr>]"
    by (simp_all add: sample_db_def extended_db_def)
  have k: "e_h_id sample_event = s_h_id sample_stop"
    by (simp add: sample_event_def sample_stop_def)
  from release_stop_event_side [OF f a, of env0 release_req]
       release_stop_event_side [OF f' a', of env0 release_req] e e' ev k
  show ?thesis
    by (simp add: release_req_def env0_def)
qed

text \<open>
  Claim C9. The status \<open>released\<close> is the only one that the release handler rejects.
  For a stop found in the store, the release succeeds exactly when its status differs
  from \<open>released\<close>; the result is then the stop with status \<open>released\<close>, whatever the
  status was before (\<open>extended\<close> as well as \<open>active\<close>), and this is the stop stored.
\<close>

theorem release_stop_only_rejects_released:
  assumes "first (\<lambda>s. s_stop_id s = stop_id) (h_stops d) = Some S"
  shows "fst (release_stop env stop_id release d) =
           (if s_status S = ''released''
            then Inl (HTTPException 400 (''H-Stop '' @ stop_id @ '' already released''))
            else Inr (S\<lparr>s_status := ''released'', s_released_at := Some (now env 0),
                       s_release_reason := Some (sr_reason release)\<rparr>)) \<and>
         (s_status S \<noteq> ''released'' \<longrightarrow>
            map_option s_status
              (first (\<lambda>s. s_stop_id s = stop_id) (h_stops (snd (release_stop env stop_id release d)))) =
            Some ''released'')"
proof (cases "s_status S = ''released''")
  case True
  with release_stop_released [OF assms True, of env release] show ?thesis by simp
next
  case False
  with release_stop_ok(1) [OF assms False, of env release]
       release_stop_stored [OF assms False, of env release]
  show ?thesis by simp
qed

theorem release_stop_only_rejects_released_witness:
  "fst (release_stop env0 ''STOP-2026-00001'' release_req extended_db) =
     Inr (sample_stop\<lparr>s_status := ''released'',
                      s_released_at := Some \<lparr>year = 2026, micros = 1000\<rparr>,
                      s_release_reason := Some ''fixed''\<rparr>) \<and>
   map_option s_status
     (first (\<lambda>s. s_stop_id s = ''STOP-2026-00001'')
        (h_stops (snd (release_stop env0 ''STOP-2026-00001'' release_req extended_db)))) =
   Some ''released''"
proof -
  have f': "first (\<lambda>s. s_stop_id s = ''STOP-2026-00001'') (h_stops extended_db) =
            Some (sample_stop\<lparr>s_status := ''extended''\<rparr>)"
    by (simp add: extended_db_def sample_stop_def)
  from release_stop_only_rejects_released [OF f', of env0 release_req]
  show ?thesis
    by (simp add: release_req_def env0_def)
qed

subsection \<open>Updating a recovery\<close>

lemma truthy_iff: "truthy v \<longleftrightarrow> \<not> (v = None \<or> v = Some [])"
  by (cases v) (simp_all add: truthy_def)

lemma update_recovery_found:
  assumes "first (\<lambda>r. r_recovery_id r = recovery_id) (recoveries d) = Some R"
  shows "fst (update_recovery env recovery_id update d) =
           Inr (R\<lparr>r_status := (if truthy (ru_status update) then the (ru_status update)
                                 else r_status R),
                   r_measures := (if truthy (ru_measures update) then ru_measures update
                                   else r_measures R),
                   r_notes := (if truthy (ru_notes update) then ru_notes update else r_notes R),
                   r_updated_at := now env 0\<rparr>)"
    and "recoveries (snd (update_recovery env recovery_id update d)) =
           update_first (\<lambda>r. r_recovery_id r = recovery_id)
             (\<lambda>_. R\<lparr>r_status := (if truthy (ru_status update) then the (ru_status update)
                                 else r_status R),
                   r_measures := (if truthy (ru_measures update) then ru_measures update
                                   else r_measures R),
                   r_notes := (if truthy (ru_notes update) then ru_notes update else r_notes R),
                   r_updated_at := now env 0\<rparr>) (recoveries d)"
    and "observe_logs (snd (update_recovery env recovery_id update d)) =
           observe_logs d @
           [\<lparr>l_id = next_log_id (observe_logs d), l_request_id = take 8 (uuid4 env),
             l_module = ''r0'', l_action = ''updated'', l_target_id = Some recovery_id,
             l_actor = None,
             l_details = Some [(''status'', (case ru_status update of None \<Rightarrow> JNull
                                            | Some s \<Rightarrow> JStr s))],
             l_timestamp = now env 1\<rparr>]"
    and "h_events (snd (update_recovery env recovery_id update d)) = h_events d"
    and "h_stops (snd (update_recovery env recovery_id update d)) = h_stops d"
  using assms by (simp_all add: update_recovery_def Let_def observe_logs_log_action)

lemma update_recovery_stored:
  assumes "first (\<lambda>r. r_recovery_id r = recovery_id) (recoveries d) = Some R"
  shows "map_option Inr (first (\<lambda>r. r_recovery_id r = recovery_id)
           (recoveries (snd (update_recovery env recovery_id update d)))) =
         Some (fst (update_recovery env recovery_id update d))"
proof -
  from first_Some_P [OF assms] have k: "r_recovery_id R = recovery_id" .
  show ?thesis
    unfolding update_recovery_found [OF assms]
    by (subst first_after_update [OF assms]) (simp_all add: k)
qed

text \<open>
  Claim C6. For a recovery found in the store, the update succeeds and the recovery it
  returns, which is the one it stores, differs from the old one as follows: \<open>status\<close>,
  \<open>measures\<close> and \<open>notes\<close> each take the caller's value when that value is present
  and not empty, and keep the stored value when the field is left out or is the empty
  string or list; \<open>updated_at\<close> is a fresh reading of the clock. An update that carries
  a status only leaves \<open>measures\<close> and \<open>notes\<close> as they were.
\<close>

theorem update_recovery_partial:
  assumes "first (\<lambda>r. r_recovery_id r = recovery_id) (recoveries d) = Some R"
  shows "fst (update_recovery env recovery_id update d) =
           Inr (R\<lparr>r_status := (if ru_status update = None \<or> ru_status update = Some []
                                 then r_status R else the (ru_status update)),
                   r_measures := (if ru_measures update = None \<or> ru_measures update = Some []
                                   then r_measures R else ru_measures update),
                   r_notes := (if ru_notes update = None \<or> ru_notes update = Some []
                                then r_notes R else ru_notes update),
                   r_updated_at := now env 0\<rparr>) \<and>
         map_option Inr (first (\<lambda>r. r_recovery_id r = recovery_id)
           (recoveries (snd (update_recovery env recovery_id update d)))) =
           Some (fst (update_recovery env recovery_id update d)) \<and>
         (ru_measures update = None \<and> ru_notes update = None \<longrightarrow>
            map_sum id r_measures (fst (update_recovery env recovery_id update d)) =
              Inr (r_measures R) \<and>
            map_sum id r_notes (fst (update_recovery env recovery_id update d)) =
              Inr (r_notes R))"
proof (intro conjI impI)
  show res: "fst (update_recovery env recovery_id update d) =
           Inr (R\<lparr>r_status := (if ru_status update = None \<or> ru_status update = Some []
                                 then r_status R else the (ru_status update)),
                   r_measures := (if ru_measures update = None \<or> ru_measures update = Some []
                                   then r_measures R else ru_measures update),
                   r_notes := (if ru_notes update = None \<or> ru_notes update = Some []
                                then r_notes R else ru_notes update),
                   r_updated_at := now env 0\<rparr>)"
    unfolding update_recovery_found(1) [OF assms] truthy_iff by simp
  show "map_option Inr (first (\<lambda>r. r_recovery_id r = recovery_id)
           (recoveries (snd (update_recovery env recovery_id update d)))) =
           Some (fst (update_recovery env recovery_id update d))"
    by (rule update_recovery_stored [OF assms])
  assume "ru_measures update = None \<and> ru_notes update = None"
  with res show "map_sum id r_measures (fst (update_recovery env recovery_id update d)) =
              Inr (r_measures R)"
    and "map_sum id r_notes (fst (update_recovery env recovery_id update d)) =
              Inr (r_notes R)"
    by simp_all
qed

theorem update_recovery_partial_witness:
  "fst (update_recovery env0 ''R0-2026-00001'' status_only sample_db) =
     Inr (sample_recovery\<lparr>r_status := ''in_progress'',
                          r_updated_at := \<lparr>year = 2026, micros = 1000\<rparr>\<rparr>) \<and>
   map_sum id r_measures (fst (update_recovery env0 ''R0-2026-00001'' status_only sample_db)) =
     Inr (Some [JObject [(''type'', JStr ''access_restoration''),
                         (''status'', JStr ''in_progress'')]]) \<and>
   map_sum id r_notes (fst (update_recovery env0 ''R0-2026-00001'' status_only sample_db)) =
     Inr (Some ''stabilize affected users'')"
proof -
  have f: "first (\<lambda>r. r_recovery_id r = ''R0-2026-00001'') (recoveries sample_db) =
           Some sample_recovery"
    by (simp add: sample_db_def sample_recovery_def)
  have m: "r_measures sample_recovery = Some [JObject [(''type'', JStr ''access_restoration''),
                         (''status'', JStr ''in_progress'')]]"
      "r_notes sample_recovery = Some ''stabilize affected users''"
    by (simp_all add: sample_recovery_def)
  from update_recovery_partial [OF f, of env0 status_only] m
  show ?thesis
    by (simp add: status_only_def env0_def)
qed

text \<open>
  Claim C10. An update of a recovery found in the store that carries no status, no
  measures and no notes, or only empty ones, is not rejected: it returns and stores the
  recovery with \<open>status\<close>, \<open>measures\<close> and \<open>notes\<close> as they were and a fresh
  \<open>updated_at\<close>, and appends one audit entry of module \<open>r0\<close> and action \<open>updated\<close>.
\<close>

theorem update_recovery_empty:
  assumes "first (\<lambda>r. r_recovery_id r = recovery_id) (recoveries d) = Some R"
    and "ru_status update = None \<or> ru_status update = Some []"
    and "ru_measures update = None \<or> ru_measures update = Some []"
    and "ru_notes update = None \<or> ru_notes update = Some []"
  shows "fst (update_recovery env recovery_id update d) = Inr (R\<lparr>r_updated_at := now env 0\<rparr>) \<and>
         first (\<lambda>r. r_recovery_id r = recovery_id)
           (recoveries (snd (update_recovery env recovery_id update d))) =
           Some (R\<lparr>r_updated_at := now env 0\<rparr>) \<and>
         observe_logs (snd (update_recovery env recovery_id update d)) =
           observe_logs d @
           [\<lparr>l_id = next_log_id (observe_logs d), l_request_id = take 8 (uuid4 env),
             l_module = ''r0'', l_action = ''updated'', l_target_id = Some recovery_id,
             l_actor = None,
             l_details = Some [(''status'', (case ru_status update of None \<Rightarrow> JNull
                                            | Some s \<Rightarrow> JStr s))],
             l_timestamp = now env 1\<rparr>]"
proof -
  from assms(2-4) have t: "\<not> truthy (ru_status update)" "\<not> truthy (ru_measures update)"
      "\<not> truthy (ru_notes update)"
    by (simp_all add: truthy_iff)
  have res: "fst (update_recovery env recovery_id update d) = Inr (R\<lparr>r_updated_at := now env 0\<rparr>)"
    unfolding update_recovery_found(1) [OF assms(1)] using t by simp
  from update_recovery_stored [OF assms(1), of env update] res
  have "first (\<lambda>r. r_recovery_id r = recovery_id)
           (recoveries (snd (update_recovery env recovery_id update d))) =
           Some (R\<lparr>r_updated_at := now env 0\<rparr>)"
    by (auto simp: map_option_case split: option.splits)
  with res update_recovery_found(3) [OF assms(1), of env update] show ?thesis
    by simp
qed

theorem update_recovery_empty_witness:
  "fst (update_recovery env0 ''R0-2026-00001'' empty_update sample_db) =
     Inr (sample_recovery\<lparr>r_updated_at := \<lparr>year = 2026, micros = 1000\<rparr>\<rparr>) \<and>
   observe_logs (snd (update_recovery env0 ''R0-2026-00001'' empty_update sample_db)) =
     [sample_log,
      \<lparr>l_id = 2, l_request_id = ''1b9d6bcd'', l_module = ''r0'', l_action = ''updated'',
        l_target_id = Some ''R0-2026-00001'', l_actor = None,
        l_details = Some [(''status'', JNull)],
        l_timestamp = \<lparr>year = 2026, micros = 1001\<rparr>\<rparr>]"
proof -
  have f: "first (\<lambda>r. r_recovery_id r = ''R0-2026-00001'') (recoveries sample_db) =
           Some sample_recovery"
    by (simp add: sample_db_def sample_recovery_def)
  have e: "ru_status empty_update = None \<or> ru_status empty_update = Some []"
      "ru_measures empty_update = None \<or> ru_measures empty_update = Some []"
      "ru_notes empty_update = None \<or> ru_notes empty_update = Some []"
    by (simp_all add: empty_update_def)
  have l: "observe_logs sample_db = [sample_log]" "next_log_id [sample_log] = 2"
    by (simp_all add: sample_db_def next_log_id_def sample_log_def)
  from update_recovery_empty [OF f e, of env0] l
  show ?thesis
    by (simp add: empty_update_def env0_def)
qed

subsection \<open>Updating the status of an event\<close>

lemma update_event_status_found:
  assumes "first (\<lambda>e. e_h_id e = h_id) (h_events d) = Some E"
  shows "fst (update_event_status env h_id update d) =
           Inr (E\<lparr>e_status := su_status update, e_updated_at := now env 0\<rparr>)"
    and "h_events (snd (update_event_status env h_id update d)) =
           update_first (\<lambda>e. e_h_id e = h_id)
             (\<lambda>_. E\<lparr>e_status := su_status update, e_updated_at := now env 0\<rparr>) (h_events d)"
    and "observe_logs (snd (update_event_status env h_id update d)) =
           observe_logs d @
           [\<lparr>l_id = next_log_id (observe_logs d), l_request_id = take 8 (uuid4 env),
             l_module = ''h_event'', l_action = ''status_updated'', l_target_id = Some h_id,
             l_actor = None,
             l_details = Some [(''old'', JStr (e_status E)),
                               (''new'', JStr (su_status update)),
                               (''reason'', JStr (su_reason update))],
             l_timestamp = now env 1\<rparr>]"
    and "h_stops (snd (update_event_status env h_id update d)) = h_stops d"
    and "recoveries (snd (update_event_status env h_id update d)) = recoveries d"
  using assms by (simp_all add: update_event_status_def Let_def observe_logs_log_action)

text \<open>
  Claim C7. A status update for an id that no event has raises the HTTP error 404 and
  leaves the store as it is. For an event found, the update succeeds for every status
  string, inside or outside the documented set and whatever the old status is: the event
  returned and stored has the new status and a fresh \<open>updated_at\<close>, and one audit entry
  is appended whose details hold the old status, the new status and the caller's reason.
\<close>

theorem update_event_status_unconditional:
  "(first (\<lambda>e. e_h_id e = h_id) (h_events d) = None \<longrightarrow>
      update_event_status env h_id update d =
        (Inl (HTTPException 404 (''H-Event '' @ h_id @ '' not found'')), d)) \<and>
   (first (\<lambda>e. e_h_id e = h_id) (h_events d) = Some E \<longrightarrow>
      fst (update_event_status env h_id update d) =
        Inr (E\<lparr>e_status := su_status update, e_updated_at := now env 0\<rparr>) \<and>
      first (\<lambda>e. e_h_id e = h_id) (h_events (snd (update_event_status env h_id update d))) =
        Some (E\<lparr>e_status := su_status update, e_updated_at := now env 0\<rparr>) \<and>
      observe_logs (snd (update_event_status env h_id update d)) =
        observe_logs d @
        [\<lparr>l_id = next_log_id (observe_logs d), l_request_id = take 8 (uuid4 env),
          l_module = ''h_event'', l_action = ''status_updated'', l_target_id = Some h_id,
          l_actor = None,
          l_details = Some [(''old'', JStr (e_status E)),
                            (''new'', JStr (su_status update)),
                            (''reason'', JStr (su_reason update))],
          l_timestamp = now env 1\<rparr>])"
proof (intro conjI impI)
  assume "first (\<lambda>e. e_h_id e = h_id) (h_events d) = None"
  then show "update_event_status env h_id update d =
        (Inl (HTTPException 404 (''H-Event '' @ h_id @ '' not found'')), d)"
    by (simp add: update_event_status_def)
next
  assume E: "first (\<lambda>e. e_h_id e = h_id) (h_events d) = Some E"
  show "fst (update_event_status env h_id update d) =
        Inr (E\<lparr>e_status := su_status update, e_updated_at := now env 0\<rparr>)"
    by (rule update_event_status_found(1) [OF E])
  from first_Some_P [OF E]
  have "e_h_id (E\<lparr>e_status := su_status update, e_updated_at := now env 0\<rparr>) = h_id"
    by simp
  from first_after_update [OF E, of _, OF this]
  show "first (\<lambda>e. e_h_id e = h_id) (h_events (snd (update_event_status env h_id update d))) =
        Some (E\<lparr>e_status := su_status update, e_updated_at := now env 0\<rparr>)"
    by (simp add: update_event_status_found(2) [OF E])
  show "observe_logs (snd (update_event_status env h_id update d)) =
        observe_logs d @
        [\<lparr>l_id = next_log_id (observe_logs d), l_request_id = take 8 (uuid4 env),
          l_module = ''h_event'', l_action = ''status_updated'', l_target_id = Some h_id,
          l_actor = None,
          l_details = Some [(''old'', JStr (e_status E)),
                            (''new'', JStr (su_status update)),
                            (''reason'', JStr (su_reason update))],
          l_timestamp = now env 1\<rparr>]"
    by (rule update_event_status_found(3) [OF E])
qed

theorem update_event_status_unconditional_witness:
  "update_event_status env0 ''HIR-2026-00002'' odd_status sample_db =
     (Inl (HTTPException 404 ''H-Event HIR-2026-00002 not found''), sample_db) \<and>
   fst (update_event_status env0 ''HIR-2026-00001'' odd_status sample_db) =
     Inr (sample_event\<lparr>e_status := ''archived'',
                       e_updated_at := \<lparr>year = 2026, micros = 1000\<rparr>\<rparr>) \<and>
   observe_logs (snd (update_event_status env0 ''HIR-2026-00001'' odd_status sample_db)) =
     [sample_log,
      \<lparr>l_id = 2, l_request_id = ''1b9d6bcd'', l_module = ''h_event'',
        l_action = ''status_updated'', l_target_id = Some ''HIR-2026-00001'', l_actor = None,
        l_details = Some [(''old'', JStr ''h_stop_active''), (''new'', JStr ''archived''),
                          (''reason'', JStr ''housekeeping'')],
        l_timestamp = \<lparr>year = 2026, micros = 1001\<rparr>\<rparr>]"
proof -
  have n: "first (\<lambda>e. e_h_id e = ''HIR-2026-00002'') (h_events sample_db) = None"
    by (simp add: sample_db_def sample_event_def)
  have f: "first (\<lambda>e. e_h_id e = ''HIR-2026-00001'') (h_events sample_db) = Some sample_event"
    by (simp add: sample_db_def sample_event_def)
  have l: "observe_logs sample_db = [sample_log]" "next_log_id [sample_log] = 2"
      "e_status sample_event = ''h_stop_active''"
    by (simp_all add: sample_db_def next_log_id_def sample_log_def sample_event_def)
  from update_event_status_unconditional [of "''HIR-2026-00002''" sample_db env0 odd_status]
       update_event_status_unconditional [of "''HIR-2026-00001''" sample_db env0 odd_status
         sample_event] n f l
  show ?thesis
    by (simp add: odd_status_def env0_def)
qed

subsection \<open>Primary keys\<close>

lemma fresh_seq:
  assumes "map (\<lambda>x. seq_of (key x)) rows = [1..<Suc (length rows)]"
    and "seq_of new = Suc (length rows)"
  shows "new \<notin> set (map key rows)"
proof
  assume "new \<in> set (map key rows)"
  then have "seq_of new \<in> set (map (\<lambda>x. seq_of (key x)) rows)"
    by auto
  with assms show False by simp
qed

lemma distinct_seq:
  assumes "map (\<lambda>x. seq_of (key x)) rows = [1..<Suc (length rows)]"
  shows "distinct (map key rows)"
proof -
  have "distinct (map (seq_of \<circ> key) rows)"
    using assms by (simp add: comp_def)
  then have "distinct rows" "inj_on (seq_of \<circ> key) (set rows)"
    by (simp_all add: distinct_map)
  then show ?thesis
    by (simp add: distinct_map inj_on_imageI2)
qed

lemma update_first_seq:
  assumes "first P rows = Some x" "key y = key x"
  shows "map (\<lambda>x. seq_of (key x)) (update_first P (\<lambda>_. y) rows) = map (\<lambda>x. seq_of (key x)) rows"
  using assms by (induction rows) (auto split: if_splits)

lemma update_first_seq':
  assumes "\<And>x. key (f x) = key x"
  shows "map (\<lambda>x. seq_of (key x)) (update_first P f rows) = map (\<lambda>x. seq_of (key x)) rows"
  using assms by (induction rows) auto

lemma fresh_h_id: "pk_sequential d \<Longrightarrow> generate_h_id env d \<notin> set (map e_h_id (h_events d))"
  by (rule fresh_seq) (simp_all add: pk_sequential_def seq_of_generate_h_id)

lemma fresh_stop_id:
  "pk_sequential d \<Longrightarrow> generate_stop_id env d \<notin> set (map s_stop_id (h_stops d))"
  by (rule fresh_seq) (simp_all add: pk_sequential_def seq_of_generate_stop_id)

lemma fresh_recovery_id:
  "pk_sequential d \<Longrightarrow> generate_recovery_id env d \<notin> set (map r_recovery_id (recoveries d))"
  by (rule fresh_seq) (simp_all add: pk_sequential_def seq_of_generate_recovery_id)

lemma pk_sequential_init: "pk_sequential init_db"
  by (simp add: pk_sequential_def init_db_def)

lemma pk_sequential_create_event:
  assumes "pk_sequential d"
  shows "pk_sequential (snd (create_event env event d))"
proof (cases "fits_integer_column (ec_affected_count event)")
  case False
  with assms show ?thesis by (simp add: create_event_def Let_def)
next
  case True
  from assms have ev: "map (\<lambda>e. seq_of (e_h_id e)) (h_events d) = [1..<Suc (length (h_events d))]"
    by (simp add: pk_sequential_def)
  show ?thesis
    using assms fresh_h_id [OF assms, of env] ev True
    by (simp add: create_event_def Let_def pk_sequential_def seq_of_generate_h_id)
qed

lemma pk_sequential_update_event_status:
  assumes "pk_sequential d"
  shows "pk_sequential (snd (update_event_status env h_id su d))"
proof (cases "first (\<lambda>e. e_h_id e = h_id) (h_events d)")
  case None
  with assms show ?thesis by (simp add: update_event_status_def)
next
  case (Some E)
  have "map (\<lambda>e. seq_of (e_h_id e)) (update_first (\<lambda>e. e_h_id e = h_id)
          (\<lambda>_. E\<lparr>e_status := su_status su, e_updated_at := now env 0\<rparr>) (h_events d)) =
        map (\<lambda>e. seq_of (e_h_id e)) (h_events d)"
    by (rule update_first_seq [OF Some]) simp
  with assms Some show ?thesis
    by (simp add: update_event_status_def Let_def pk_sequential_def length_update_first)
qed

lemma pk_sequential_activate_stop:
  assumes "pk_sequential d"
  shows "pk_sequential (snd (activate_stop env stop d))"
proof (cases "first (\<lambda>e. e_h_id e = sc_h_id stop) (h_events d)")
  case None
  with assms show ?thesis by (simp add: activate_stop_def)
next
  case (Some E)
  have "map (\<lambda>e. seq_of (e_h_id e)) (update_first (\<lambda>e. e_h_id e = sc_h_id stop)
          (\<lambda>_. E\<lparr>e_status := ''h_stop_active'', e_updated_at := now env 1\<rparr>) (h_events d)) =
        map (\<lambda>e. seq_of (e_h_id e)) (h_events d)"
    by (rule update_first_seq [OF Some]) simp
  with assms Some fresh_stop_id [OF assms, of env] show ?thesis
    by (simp add: activate_stop_def Let_def pk_sequential_def length_update_first
        seq_of_generate_stop_id)
qed

lemma pk_sequential_cong:
  assumes "pk_sequential d"
    and "map (\<lambda>e. seq_of (e_h_id e)) (h_events d') = map (\<lambda>e. seq_of (e_h_id e)) (h_events d)"
    and "map (\<lambda>s. seq_of (s_stop_id s)) (h_stops d') = map (\<lambda>s. seq_of (s_stop_id s)) (h_stops d)"
    and "map (\<lambda>r. seq_of (r_recovery_id r)) (recoveries d') =
         map (\<lambda>r. seq_of (r_recovery_id r)) (recoveries d)"
  shows "pk_sequential d'"
proof -
  from assms(2-4) have "length (h_events d') = length (h_events d)"
      "length (h_stops d') = length (h_stops d)" "length (recoveries d') = length (recoveries d)"
    by (auto dest: map_eq_imp_length_eq)
  with assms show ?thesis
    unfolding pk_sequential_def by (simp only:)
qed

lemma pk_sequential_release_stop:
  assumes "pk_sequential d"
  shows "pk_sequential (snd (release_stop env stop_id release d))"
proof (cases "first (\<lambda>s. s_stop_id s = stop_id) (h_stops d)")
  case None
  with assms show ?thesis by (simp add: release_stop_def)
next
  case (Some S)
  show ?thesis
  proof (cases "s_status S = ''released''")
    case True
    with assms Some show ?thesis by (simp add: release_stop_def)
  next
    case False
    have "map (\<lambda>s. seq_of (s_stop_id s)) (update_first (\<lambda>s. s_stop_id s = stop_id)
            (\<lambda>_. S\<lparr>s_status := ''released'', s_released_at := Some (now env 0),
                    s_release_reason := Some (sr_reason release)\<rparr>) (h_stops d)) =
          map (\<lambda>s. seq_of (s_stop_id s)) (h_stops d)"
      by (rule update_first_seq [OF Some]) simp
    then have st: "map (\<lambda>s. seq_of (s_stop_id s)) (h_stops (snd (release_stop env stop_id release d))) =
          map (\<lambda>s. seq_of (s_stop_id s)) (h_stops d)"
      by (simp only: release_stop_ok(2) [OF Some False])
    have "map (\<lambda>e. seq_of (e_h_id e)) (update_first (\<lambda>e. e_h_id e = s_h_id S)
            (\<lambda>e. e\<lparr>e_status := ''investigating'', e_updated_at := now env 1\<rparr>) (h_events d)) =
          map (\<lambda>e. seq_of (e_h_id e)) (h_events d)"
      by (rule update_first_seq') simp
    then have ev: "map (\<lambda>e. seq_of (e_h_id e)) (h_events (snd (release_stop env stop_id release d))) =
          map (\<lambda>e. seq_of (e_h_id e)) (h_events d)"
      unfolding release_stop_events [OF Some False] by (split if_split) (simp only: simp_thms)
    have rc: "recoveries (snd (release_stop env stop_id release d)) = recoveries d"
      using Some False by (simp add: release_stop_def Let_def)
    show ?thesis
      by (rule pk_sequential_cong [OF assms ev st]) (simp only: rc)
  qed
qed

lemma pk_sequential_initiate_recovery:
  assumes "pk_sequential d"
  shows "pk_sequential (snd (initiate_recovery env recovery d))"
proof (cases "first (\<lambda>e. e_h_id e = rc_h_id recovery) (h_events d)")
  case None
  with assms show ?thesis by (simp add: initiate_recovery_def)
next
  case (Some E)
  have "map (\<lambda>e. seq_of (e_h_id e)) (update_first (\<lambda>e. e_h_id e = rc_h_id recovery)
          (\<lambda>_. E\<lparr>e_status := ''recovering'', e_updated_at := now env 1\<rparr>) (h_events d)) =
        map (\<lambda>e. seq_of (e_h_id e)) (h_events d)"
    by (rule update_first_seq [OF Some]) simp
  note events = this
  show ?thesis
  proof (cases "sqlite_integer (rc_affected_count recovery)")
    case False
    with assms Some show ?thesis by (simp add: initiate_recovery_def Let_def)
  next
    case True
    with events assms Some fresh_recovery_id [OF assms, of env] show ?thesis
      by (simp add: initiate_recovery_def Let_def pk_sequential_def length_update_first
          seq_of_generate_recovery_id)
  qed
qed

lemma pk_sequential_update_recovery:
  assumes "pk_sequential d"
  shows "pk_sequential (snd (update_recovery env recovery_id ru d))"
proof (cases "first (\<lambda>r. r_recovery_id r = recovery_id) (recoveries d)")
  case None
  with assms show ?thesis by (simp add: update_recovery_def)
next
  case (Some R)
  have "map (\<lambda>r. seq_of (r_recovery_id r)) (update_first (\<lambda>r. r_recovery_id r = recovery_id)
          (\<lambda>_. y) (recoveries d)) =
        map (\<lambda>r. seq_of (r_recovery_id r)) (recoveries d)" if "r_recovery_id y = r_recovery_id R" for y
    by (rule update_first_seq [OF Some that])
  with assms show ?thesis
    by (simp add: pk_sequential_def length_update_first update_recovery_found [OF Some])
qed

lemma reachable_pk_sequential: "reachable d \<Longrightarrow> pk_sequential d"
proof (induction rule: reachable.induct)
  case init
  show ?case by (rule pk_sequential_init)
qed (simp_all add: pk_sequential_create_event pk_sequential_update_event_status
      pk_sequential_activate_stop pk_sequential_release_stop pk_sequential_initiate_recovery
      pk_sequential_update_recovery)

subsection \<open>The sample data\<close>

lemma int_of_str_00001: "int_of_str ''00001'' = 1"
  by (simp add: int_of_str_def digit_val_def)

lemma seq_of_samples:
  "seq_of ''HIR-2026-00001'' = 1" "seq_of ''STOP-2026-00001'' = 1" "seq_of ''R0-2026-00001'' = 1"
  using seq_of_id [of "''00001''" "''HIR-2026''"] seq_of_id [of "''00001''" "''STOP-2026''"]
    seq_of_id [of "''00001''" "''R0-2026''"]
  by (simp_all add: is_digit_def int_of_str_00001)

lemma str_nat_2026: "str_nat 2026 = ''2026''"
  by (simp add: str_nat.simps digit_def)

lemma format_05d_2: "format_05d 2 = ''00002''"
  by code_simp

lemma now_env0: "now env0 k = \<lparr>year = 2026, micros = 1000 + k\<rparr>"
  by (simp add: env0_def)

lemma lengths_sample_db:
  "length (h_events sample_db) + 1 = 2" "length (h_stops sample_db) + 1 = 2"
  "length (recoveries sample_db) + 1 = 2" "year (now env0 0) = 2026"
  by (simp_all add: sample_db_def env0_def)

lemma generate_ids_sample:
  "generate_h_id env0 sample_db = ''HIR-2026-00002''"
  "generate_stop_id env0 sample_db = ''STOP-2026-00002''"
  "generate_recovery_id env0 sample_db = ''R0-2026-00002''"
  unfolding generate_h_id_def generate_stop_id_def generate_recovery_id_def Let_def
    lengths_sample_db str_nat_2026 format_05d_2
  by simp_all

lemma pk_sequential_sample_db: "pk_sequential sample_db"
  by (simp add: pk_sequential_def sample_db_def sample_event_def sample_stop_def
      sample_recovery_def seq_of_samples)

subsection \<open>Activating a stop\<close>

lemma activate_stop_found:
  assumes "first (\<lambda>e. e_h_id e = sc_h_id stop) (h_events d) = Some E"
    and "generate_stop_id env d \<notin> set (map s_stop_id (h_stops d))"
  shows "fst (activate_stop env stop d) =
           Inr \<lparr>s_stop_id = generate_stop_id env d, s_h_id = sc_h_id stop,
                s_measure = sc_measure stop, s_status = ''active'',
                s_scope_target = sc_scope_target stop, s_reason = sc_reason stop,
                s_initiated_by = sc_initiated_by stop,
                s_review_deadline = sc_review_deadline stop,
                s_released_at = None, s_release_reason = None, s_created_at = now env 2\<rparr>"
    and "h_stops (snd (activate_stop env stop d)) =
           h_stops d @
           [\<lparr>s_stop_id = generate_stop_id env d, s_h_id = sc_h_id stop,
             s_measure = sc_measure stop, s_status = ''active'',
             s_scope_target = sc_scope_target stop, s_reason = sc_reason stop,
             s_initiated_by = sc_initiated_by stop,
             s_review_deadline = sc_review_deadline stop,
             s_released_at = None, s_release_reason = None, s_created_at = now env 2\<rparr>]"
    and "h_events (snd (activate_stop env stop d)) =
           update_first (\<lambda>e. e_h_id e = sc_h_id stop)
             (\<lambda>_. E\<lparr>e_status := ''h_stop_active'', e_updated_at := now env 1\<rparr>) (h_events d)"
    and "observe_logs (snd (activate_stop env stop d)) =
           observe_logs d @
           [\<lparr>l_id = next_log_id (observe_logs d), l_request_id = take 8 (uuid4 env),
             l_module = ''h_stop'', l_action = ''activated'',
             l_target_id = Some (generate_stop_id env d),
             l_actor = Some (sc_initiated_by stop),
             l_details = Some [(''h_id'', JStr (sc_h_id stop)),
                               (''measure'', JStr (sc_measure stop))],
             l_timestamp = now env 3\<rparr>]"
    and "recoveries (snd (activate_stop env stop d)) = recoveries d"
  using assms by (simp_all add: activate_stop_def Let_def observe_logs_log_action)

text \<open>
  Claim C2. A request to activate a stop on an id that no event has raises the HTTP
  error 404 and leaves the store as it is, so no stop is created. In a store whose
  primary keys are sequential (every store reached from the empty one is), a request
  that refers to an existing event \<open>E\<close> succeeds: it appends the new stop, with status
  \<open>active\<close>, and afterwards the event stored under the id is \<open>E\<close> with status
  \<open>h_stop_active\<close> and a fresh \<open>updated_at\<close>, whatever the status of \<open>E\<close> was.
\<close>

theorem activate_stop_sets_event_status:
  "(first (\<lambda>e. e_h_id e = sc_h_id stop) (h_events d) = None \<longrightarrow>
      activate_stop env stop d =
        (Inl (HTTPException 404 (''H-Event '' @ sc_h_id stop @ '' not found'')), d)) \<and>
   (pk_sequential d \<and> first (\<lambda>e. e_h_id e = sc_h_id stop) (h_events d) = Some E \<longrightarrow>
      fst (activate_stop env stop d) =
        Inr \<lparr>s_stop_id = generate_stop_id env d, s_h_id = sc_h_id stop,
             s_measure = sc_measure stop, s_status = ''active'',
             s_scope_target = sc_scope_target stop, s_reason = sc_reason stop,
             s_initiated_by = sc_initiated_by stop,
             s_review_deadline = sc_review_deadline stop,
             s_released_at = None, s_release_reason = None, s_created_at = now env 2\<rparr> \<and>
      first (\<lambda>e. e_h_id e = sc_h_id stop) (h_events (snd (activate_stop env stop d))) =
        Some (E\<lparr>e_status := ''h_stop_active'', e_updated_at := now env 1\<rparr>) \<and>
      length (h_stops (snd (activate_stop env stop d))) = Suc (length (h_stops d)))"
proof (intro conjI impI)
  assume "first (\<lambda>e. e_h_id e = sc_h_id stop) (h_events d) = None"
  then show "activate_stop env stop d =
        (Inl (HTTPException 404 (''H-Event '' @ sc_h_id stop @ '' not found'')), d)"
    by (simp add: activate_stop_def)
next
  assume a: "pk_sequential d \<and> first (\<lambda>e. e_h_id e = sc_h_id stop) (h_events d) = Some E"
  then have E: "first (\<lambda>e. e_h_id e = sc_h_id stop) (h_events d) = Some E"
    and fresh: "generate_stop_id env d \<notin> set (map s_stop_id (h_stops d))"
    using fresh_stop_id [of d env] by simp_all
  show "fst (activate_stop env stop d) =
        Inr \<lparr>s_stop_id = generate_stop_id env d, s_h_id = sc_h_id stop,
             s_measure = sc_measure stop, s_status = ''active'',
             s_scope_target = sc_scope_target stop, s_reason = sc_reason stop,
             s_initiated_by = sc_initiated_by stop,
             s_review_deadline = sc_review_deadline stop,
             s_released_at = None, s_release_reason = None, s_created_at = now env 2\<rparr>"
    by (rule activate_stop_found(1) [OF E fresh])
  from first_Some_P [OF E]
  have "e_h_id (E\<lparr>e_status := ''h_stop_active'', e_updated_at := now env 1\<rparr>) = sc_h_id stop"
    by simp
  from first_after_update [OF E, of _, OF this]
  show "first (\<lambda>e. e_h_id e = sc_h_id stop) (h_events (snd (activate_stop env stop d))) =
        Some (E\<lparr>e_status := ''h_stop_active'', e_updated_at := now env 1\<rparr>)"
    by (simp only: activate_stop_found(3) [OF E fresh])
  show "length (h_stops (snd (activate_stop env stop d))) = Suc (length (h_stops d))"
    by (simp add: activate_stop_found(2) [OF E fresh])
qed

theorem activate_stop_sets_event_status_witness:
  "activate_stop env0 (stop_req\<lparr>sc_h_id := ''HIR-2026-00007''\<rparr>) sample_db =
     (Inl (HTTPException 404 ''H-Event HIR-2026-00007 not found''), sample_db) \<and>
   map_sum id s_stop_id (fst (activate_stop env0 stop_req sample_db)) = Inr ''STOP-2026-00002'' \<and>
   first (\<lambda>e. e_h_id e = ''HIR-2026-00001'')
     (h_events (snd (activate_stop env0 stop_req
        (sample_db\<lparr>h_events := [sample_event\<lparr>e_status := ''resolved''\<rparr>]\<rparr>)))) =
     Some (sample_event\<lparr>e_status := ''h_stop_active'',
                         e_updated_at := \<lparr>year = 2026, micros = 1001\<rparr>\<rparr>)"
proof -
  have n: "first (\<lambda>e. e_h_id e = sc_h_id (stop_req\<lparr>sc_h_id := ''HIR-2026-00007''\<rparr>))
             (h_events sample_db) = None"
    by (simp add: sample_db_def sample_event_def)
  have f: "first (\<lambda>e. e_h_id e = sc_h_id stop_req) (h_events sample_db) = Some sample_event"
    by (simp add: sample_db_def sample_event_def stop_req_def)
  have f': "first (\<lambda>e. e_h_id e = sc_h_id stop_req)
              (h_events (sample_db\<lparr>h_events := [sample_event\<lparr>e_status := ''resolved''\<rparr>]\<rparr>)) =
            Some (sample_event\<lparr>e_status := ''resolved''\<rparr>)"
    by (simp add: sample_event_def stop_req_def)
  have p: "pk_sequential (sample_db\<lparr>h_events := [sample_event\<lparr>e_status := ''resolved''\<rparr>]\<rparr>)"
    using pk_sequential_sample_db by (simp add: pk_sequential_def sample_db_def)
  have k: "sc_h_id stop_req = ''HIR-2026-00001''"
    by (simp add: stop_req_def)
  from activate_stop_sets_event_status [where stop = "stop_req\<lparr>sc_h_id := ''HIR-2026-00007''\<rparr>"
         and d = sample_db and env = env0]
       activate_stop_sets_event_status [where stop = stop_req and d = sample_db and env = env0
         and E = sample_event]
       activate_stop_sets_event_status [where stop = stop_req
         and d = "sample_db\<lparr>h_events := [sample_event\<lparr>e_status := ''resolved''\<rparr>]\<rparr>"
         and env = env0 and E = "sample_event\<lparr>e_status := ''resolved''\<rparr>"]
       n f f' p k pk_sequential_sample_db
  show ?thesis
    by (simp add: generate_ids_sample now_env0)
qed

subsection \<open>Creating an event\<close>

lemma create_event_fresh:
  assumes "generate_h_id env d \<notin> set (map e_h_id (h_events d))"
    and "fits_integer_column (ec_affected_count event)"
  shows "fst (create_event env event d) =
           Inr \<lparr>e_h_id = generate_h_id env d, e_status = ''registered'',
                e_harm_type = ec_harm_type event, e_harm_domain = ec_harm_domain event,
                e_description = ec_description event, e_severity = ec_severity event,
                e_confidence = ec_confidence event,
                e_affected_scope = ec_affected_scope event,
                e_affected_count = ec_affected_count event, e_horizon = ec_horizon event,
                e_source_type = ec_source_type event, e_source_id = ec_source_id event,
                e_metadata = ec_metadata event, e_created_at = now env 1,
                e_updated_at = now env 2\<rparr>"
    and "h_events (snd (create_event env event d)) =
           h_events d @
           [\<lparr>e_h_id = generate_h_id env d, e_status = ''registered'',
                e_harm_type = ec_harm_type event, e_harm_domain = ec_harm_domain event,
                e_description = ec_description event, e_severity = ec_severity event,
                e_confidence = ec_confidence event,
                e_affected_scope = ec_affected_scope event,
                e_affected_count = ec_affected_count event, e_horizon = ec_horizon event,
                e_source_type = ec_source_type event, e_source_id = ec_source_id event,
                e_metadata = ec_metadata event, e_created_at = now env 1,
                e_updated_at = now env 2\<rparr>]"
    and "observe_logs (snd (create_event env event d)) =
           observe_logs d @
           [\<lparr>l_id = next_log_id (observe_logs d), l_request_id = take 8 (uuid4 env),
             l_module = ''h_event'', l_action = ''created'',
             l_target_id = Some (generate_h_id env d),
             l_actor = Some (ec_source_type event),
             l_details = Some [(''severity'', JStr (ec_severity event))],
             l_timestamp = now env 3\<rparr>]"
    and "h_stops (snd (create_event env event d)) = h_stops d"
    and "recoveries (snd (create_event env event d)) = recoveries d"
  using assms by (simp_all add: create_event_def Let_def observe_logs_log_action)

lemma create_event_clash:
  assumes "generate_h_id env d \<in> set (map e_h_id (h_events d))"
    and "fits_integer_column (ec_affected_count event)"
  shows "create_event env event d = (Inl IntegrityError, d)"
  using assms by (simp add: create_event_def Let_def)

lemma create_event_overflow:
  assumes "\<not> fits_integer_column (ec_affected_count event)"
  shows "create_event env event d = (Inl OverflowError, d)"
  using assms by (simp add: create_event_def Let_def)

lemma fits_event_req: "fits_integer_column (ec_affected_count event_req)"
  by (simp add: fits_integer_column_def event_req_def)

lemma length_format_05d_ge: "5 \<le> length (format_05d n)"
  by (simp add: format_05d_def)

lemma matches_generate_h_id:
  assumes "1000 \<le> year (now env 0)" "year (now env 0) \<le> 9999" "length (h_events d) < 99999"
  shows "matches_h_id_pattern (generate_h_id env d)"
proof -
  have y: "length (str_nat (year (now env 0))) = 4"
    using assms by (simp add: length_year)
  have n: "length (format_05d (Suc (length (h_events d)))) = 5"
    using assms by (simp add: length_format_05d)
  show ?thesis
    using y n digits_str_nat [of "year (now env 0)"] digits_format_05d [of "Suc (length (h_events d))"]
    by (simp add: matches_h_id_pattern_def generate_h_id_def)
qed

lemma seq_of_numbered_event: "seq_of (e_h_id (numbered_event n)) = n"
  using seq_of_id [OF digits_format_05d, of "''HIR-2026''" n]
  by (simp add: numbered_event_def int_of_str_format_05d)

lemma pk_sequential_full_db: "pk_sequential full_db"
  by (simp add: pk_sequential_def full_db_def seq_of_numbered_event comp_def)

lemma format_05d_100000: "format_05d 100000 = ''100000''"
  by (simp add: format_05d_def str_nat.simps digit_def)

lemma generate_h_id_full_db: "generate_h_id env0 full_db = ''HIR-2026-100000''"
proof -
  have "length (h_events full_db) + 1 = 100000"
    by (simp add: full_db_def)
  then show ?thesis
    unfolding generate_h_id_def Let_def lengths_sample_db str_nat_2026
    by (simp add: format_05d_100000)
qed

text \<open>
  Claim C5, as stated, fails: the sequence number is padded to a width of five but never
  cut, so the event created in a store that holds 99999 events gets the id
  \<open>HIR-2026-100000\<close>, whose sequence part has six digits.
\<close>

theorem create_event_h_id_counterexample:
  "map_sum id e_h_id (fst (create_event env0 event_req full_db)) = Inr ''HIR-2026-100000'' \<and>
   \<not> matches_h_id_pattern ''HIR-2026-100000''"
proof
  from create_event_fresh(1) [OF fresh_h_id [OF pk_sequential_full_db] fits_event_req, of env0]
  show "map_sum id e_h_id (fst (create_event env0 event_req full_db)) = Inr ''HIR-2026-100000''"
    by (simp add: generate_h_id_full_db)
  show "\<not> matches_h_id_pattern ''HIR-2026-100000''"
    by (simp add: matches_h_id_pattern_def)
qed

text \<open>
  Claim C5, amended. A creation is valid when its \<open>affected_count\<close> is absent or is an
  integer that the store can hold; any other raises an overflow error at the commit and
  leaves the store as it is. In a store whose primary keys are sequential (every store
  reached from the empty one is), a valid creation succeeds and appends the event
  returned. Its status is \<open>registered\<close>. Its id is \<open>HIR-\<close>, the current year in
  decimal, a hyphen and the number of events already stored plus one (a counter over all
  events, not per year), written in decimal with zeros on the left up to a width of at
  least five. No
  other event of the store has this id. When the year has four digits and the store
  holds fewer than 99999 events, the sequence part has exactly five digits and the id
  matches \<^verbatim>\<open>HIR-<4-digit-year>-<5-digit-seq>\<close>.
\<close>

theorem create_event_h_id:
  assumes "pk_sequential d"
  shows "(\<not> fits_integer_column (ec_affected_count event) \<longrightarrow>
            create_event env event d = (Inl OverflowError, d)) \<and>
         (fits_integer_column (ec_affected_count event) \<longrightarrow>
            map_sum id e_h_id (fst (create_event env event d)) =
              Inr (''HIR-'' @ str_nat (year (now env 0)) @ ''-'' @
                   format_05d (length (h_events d) + 1)) \<and>
            int_of_str (format_05d (length (h_events d) + 1)) = length (h_events d) + 1 \<and>
            5 \<le> length (format_05d (length (h_events d) + 1)) \<and>
            map_sum id e_status (fst (create_event env event d)) = Inr ''registered'' \<and>
            map_sum id (\<lambda>ev. h_events d @ [ev]) (fst (create_event env event d)) =
              Inr (h_events (snd (create_event env event d))) \<and>
            map_sum id (\<lambda>ev. e_h_id ev \<in> set (map e_h_id (h_events d)))
              (fst (create_event env event d)) = Inr False \<and>
            distinct (map e_h_id (h_events (snd (create_event env event d)))) \<and>
            (1000 \<le> year (now env 0) \<and> year (now env 0) \<le> 9999 \<and>
             length (h_events d) < 99999 \<longrightarrow>
               length (str_nat (year (now env 0))) = 4 \<and>
               length (format_05d (length (h_events d) + 1)) = 5 \<and>
               map_sum id (\<lambda>ev. matches_h_id_pattern (e_h_id ev))
                 (fst (create_event env event d)) = Inr True))"
proof (rule conjI; rule impI)
  assume "\<not> fits_integer_column (ec_affected_count event)"
  then show "create_event env event d = (Inl OverflowError, d)"
    by (rule create_event_overflow)
next
  assume fits: "fits_integer_column (ec_affected_count event)"
  note fresh = fresh_h_id [OF assms, of env]
  note res = create_event_fresh(1) [OF fresh fits]
  note evs = create_event_fresh(2) [OF fresh fits]
  have id: "map_sum id e_h_id (fst (create_event env event d)) =
           Inr (''HIR-'' @ str_nat (year (now env 0)) @ ''-'' @
                format_05d (length (h_events d) + 1))"
    unfolding res by (simp add: generate_h_id_def)
  have st: "map_sum id e_status (fst (create_event env event d)) = Inr ''registered''"
    unfolding res by simp
  have app: "map_sum id (\<lambda>ev. h_events d @ [ev]) (fst (create_event env event d)) =
           Inr (h_events (snd (create_event env event d)))"
    unfolding res evs by simp
  have new: "map_sum id (\<lambda>ev. e_h_id ev \<in> set (map e_h_id (h_events d)))
           (fst (create_event env event d)) = Inr False"
    unfolding res using fresh by simp
  from pk_sequential_create_event [OF assms, of env event]
  have "map (\<lambda>e. seq_of (e_h_id e)) (h_events (snd (create_event env event d))) =
        [1..<Suc (length (h_events (snd (create_event env event d))))]"
    by (simp only: pk_sequential_def)
  then have dist: "distinct (map e_h_id (h_events (snd (create_event env event d))))"
    by (rule distinct_seq)
  have pat: "length (str_nat (year (now env 0))) = 4 \<and>
            length (format_05d (length (h_events d) + 1)) = 5 \<and>
            map_sum id (\<lambda>ev. matches_h_id_pattern (e_h_id ev))
              (fst (create_event env event d)) = Inr True"
    if "1000 \<le> year (now env 0) \<and> year (now env 0) \<le> 9999 \<and> length (h_events d) < 99999"
    unfolding res using that matches_generate_h_id [of env d]
    by (simp add: length_year length_format_05d)
  have num: "int_of_str (format_05d (length (h_events d) + 1)) = length (h_events d) + 1"
      "5 \<le> length (format_05d (length (h_events d) + 1))"
    by (simp_all only: int_of_str_format_05d length_format_05d_ge)
  from id num st app new dist pat
  show "map_sum id e_h_id (fst (create_event env event d)) =
              Inr (''HIR-'' @ str_nat (year (now env 0)) @ ''-'' @
                   format_05d (length (h_events d) + 1)) \<and>
            int_of_str (format_05d (length (h_events d) + 1)) = length (h_events d) + 1 \<and>
            5 \<le> length (format_05d (length (h_events d) + 1)) \<and>
            map_sum id e_status (fst (create_event env event d)) = Inr ''registered'' \<and>
            map_sum id (\<lambda>ev. h_events d @ [ev]) (fst (create_event env event d)) =
              Inr (h_events (snd (create_event env event d))) \<and>
            map_sum id (\<lambda>ev. e_h_id ev \<in> set (map e_h_id (h_events d)))
              (fst (create_event env event d)) = Inr False \<and>
            distinct (map e_h_id (h_events (snd (create_event env event d)))) \<and>
            (1000 \<le> year (now env 0) \<and> year (now env 0) \<le> 9999 \<and>
             length (h_events d) < 99999 \<longrightarrow>
               length (str_nat (year (now env 0))) = 4 \<and>
               length (format_05d (length (h_events d) + 1)) = 5 \<and>
               map_sum id (\<lambda>ev. matches_h_id_pattern (e_h_id ev))
                 (fst (create_event env event d)) = Inr True)"
    by blast
qed

theorem create_event_h_id_witness:
  "map_sum id e_h_id (fst (create_event env0 event_req sample_db)) = Inr ''HIR-2026-00002'' \<and>
   map_sum id e_status (fst (create_event env0 event_req sample_db)) = Inr ''registered'' \<and>
   map_sum id (\<lambda>ev. matches_h_id_pattern (e_h_id ev))
     (fst (create_event env0 event_req sample_db)) = Inr True \<and>
   create_event env0 (event_req\<lparr>ec_affected_count := Some 9223372036854775808\<rparr>) sample_db =
     (Inl OverflowError, sample_db)"
proof -
  have y: "1000 \<le> year (now env0 0) \<and> year (now env0 0) \<le> 9999 \<and>
           length (h_events sample_db) < 99999"
    by (simp add: now_env0 sample_db_def)
  have over: "\<not> fits_integer_column
      (ec_affected_count (event_req\<lparr>ec_affected_count := Some 9223372036854775808\<rparr>))"
    by (simp add: fits_integer_column_def sqlite_integer_def)
  from create_event_h_id [OF pk_sequential_sample_db, of event_req env0]
       create_event_h_id [OF pk_sequential_sample_db,
         of "event_req\<lparr>ec_affected_count := Some 9223372036854775808\<rparr>" env0]
       y over fits_event_req
  show ?thesis
    unfolding lengths_sample_db str_nat_2026 format_05d_2 by simp
qed

subsection \<open>The audit log\<close>

lemma initiate_recovery_found:
  assumes "first (\<lambda>e. e_h_id e = rc_h_id recovery) (h_events d) = Some E"
    and "generate_recovery_id env d \<notin> set (map r_recovery_id (recoveries d))"
    and "sqlite_integer (rc_affected_count recovery)"
  shows "fst (initiate_recovery env recovery d) =
           Inr \<lparr>r_recovery_id = generate_recovery_id env d, r_h_id = rc_h_id recovery,
                r_status = ''initiated'', r_affected_count = rc_affected_count recovery,
                r_measures = rc_measures recovery, r_notes = rc_notes recovery,
                r_created_at = now env 2, r_updated_at = now env 3\<rparr>"
    and "h_events (snd (initiate_recovery env recovery d)) =
           update_first (\<lambda>e. e_h_id e = rc_h_id recovery)
             (\<lambda>_. E\<lparr>e_status := ''recovering'', e_updated_at := now env 1\<rparr>) (h_events d)"
    and "observe_logs (snd (initiate_recovery env recovery d)) =
           observe_logs d @
           [\<lparr>l_id = next_log_id (observe_logs d), l_request_id = take 8 (uuid4 env),
             l_module = ''r0'', l_action = ''initiated'',
             l_target_id = Some (generate_recovery_id env d), l_actor = None,
             l_details = Some [(''h_id'', JStr (rc_h_id recovery)),
                               (''affected'', JInt (rc_affected_count recovery))],
             l_timestamp = now env 4\<rparr>]"
  using assms by (simp_all add: initiate_recovery_def Let_def observe_logs_log_action)

lemma audit_create_event:
  "case create_event env event d of
     (Inl _, d') \<Rightarrow> d' = d
   | (Inr _, d') \<Rightarrow> \<exists>entry. observe_logs d' = observe_logs d @ [entry] \<and>
                      l_module entry = ''h_event'' \<and> l_action entry = ''created''"
  by (simp add: create_event_def Let_def observe_logs_log_action)

lemma audit_update_event_status:
  "case update_event_status env h_id su d of
     (Inl _, d') \<Rightarrow> d' = d
   | (Inr _, d') \<Rightarrow> \<exists>entry. observe_logs d' = observe_logs d @ [entry] \<and>
                      l_module entry = ''h_event'' \<and> l_action entry = ''status_updated''"
  by (simp add: update_event_status_def Let_def observe_logs_log_action split: option.split)

lemma audit_activate_stop:
  "case activate_stop env stop d of
     (Inl _, d') \<Rightarrow> d' = d
   | (Inr _, d') \<Rightarrow> \<exists>entry. observe_logs d' = observe_logs d @ [entry] \<and>
                      l_module entry = ''h_stop'' \<and> l_action entry = ''activated''"
  by (simp add: activate_stop_def Let_def observe_logs_log_action split: option.split)

lemma audit_release_stop:
  "case release_stop env stop_id release d of
     (Inl _, d') \<Rightarrow> d' = d
   | (Inr _, d') \<Rightarrow> \<exists>entry. observe_logs d' = observe_logs d @ [entry] \<and>
                      l_module entry = ''h_stop'' \<and> l_action entry = ''released''"
  by (simp add: release_stop_def Let_def observe_logs_log_action split: option.split)

lemma audit_initiate_recovery:
  "case initiate_recovery env recovery d of
     (Inl _, d') \<Rightarrow> d' = d
   | (Inr _, d') \<Rightarrow> \<exists>entry. observe_logs d' = observe_logs d @ [entry] \<and>
                      l_module entry = ''r0'' \<and> l_action entry = ''initiated''"
  by (simp add: initiate_recovery_def Let_def observe_logs_log_action split: option.split)

lemma audit_update_recovery:
  "case update_recovery env recovery_id ru d of
     (Inl _, d') \<Rightarrow> d' = d
   | (Inr _, d') \<Rightarrow> \<exists>entry. observe_logs d' = observe_logs d @ [entry] \<and>
                      l_module entry = ''r0'' \<and> l_action entry = ''updated''"
  by (simp add: update_recovery_def Let_def observe_logs_log_action split: option.split)

lemma audit_success:
  assumes "case r of
             (Inl _, d') \<Rightarrow> d' = d
           | (Inr _, d') \<Rightarrow> \<exists>entry. observe_logs d' = observe_logs d @ [entry] \<and>
                              l_module entry = m \<and> l_action entry = a"
    and "fst r = Inr x"
  shows "map (\<lambda>l. (l_module l, l_action l)) (observe_logs (snd r)) =
         map (\<lambda>l. (l_module l, l_action l)) (observe_logs d) @ [(m, a)]"
  using assms by (cases r) auto

text \<open>
  Claim C4. Each of the six mutating handlers, when it succeeds, leaves the audit log as
  it was and appends exactly one entry to it, with the module and the action of the
  handler: \<open>h_event\<close>/\<open>created\<close>, \<open>h_event\<close>/\<open>status_updated\<close>, \<open>h_stop\<close>/\<open>activated\<close>,
  \<open>h_stop\<close>/\<open>released\<close>, \<open>r0\<close>/\<open>initiated\<close>, \<open>r0\<close>/\<open>updated\<close>. When it fails, the
  whole store, the audit log included, is as before. So no handler changes or removes an
  entry that is in the log.
\<close>

theorem mutations_append_one_audit_entry:
  "(case create_event env event d of
      (Inl _, d') \<Rightarrow> d' = d
    | (Inr _, d') \<Rightarrow> \<exists>entry. observe_logs d' = observe_logs d @ [entry] \<and>
                       l_module entry = ''h_event'' \<and> l_action entry = ''created'') \<and>
   (case update_event_status env h_id su d of
      (Inl _, d') \<Rightarrow> d' = d
    | (Inr _, d') \<Rightarrow> \<exists>entry. observe_logs d' = observe_logs d @ [entry] \<and>
                       l_module entry = ''h_event'' \<and> l_action entry = ''status_updated'') \<and>
   (case activate_stop env stop d of
      (Inl _, d') \<Rightarrow> d' = d
    | (Inr _, d') \<Rightarrow> \<exists>entry. observe_logs d' = observe_logs d @ [entry] \<and>
                       l_module entry = ''h_stop'' \<and> l_action entry = ''activated'') \<and>
   (case release_stop env stop_id release d of
      (Inl _, d') \<Rightarrow> d' = d
    | (Inr _, d') \<Rightarrow> \<exists>entry. observe_logs d' = observe_logs d @ [entry] \<and>
                       l_module entry = ''h_stop'' \<and> l_action entry = ''released'') \<and>
   (case initiate_recovery env recovery d of
      (Inl _, d') \<Rightarrow> d' = d
    | (Inr _, d') \<Rightarrow> \<exists>entry. observe_logs d' = observe_logs d @ [entry] \<and>
                       l_module entry = ''r0'' \<and> l_action entry = ''initiated'') \<and>
   (case update_recovery env recovery_id ru d of
      (Inl _, d') \<Rightarrow> d' = d
    | (Inr _, d') \<Rightarrow> \<exists>entry. observe_logs d' = observe_logs d @ [entry] \<and>
                       l_module entry = ''r0'' \<and> l_action entry = ''updated'')"
  by (intro conjI audit_create_event audit_update_event_status audit_activate_stop
      audit_release_stop audit_initiate_recovery audit_update_recovery)

theorem mutations_append_one_audit_entry_witness:
  "map (\<lambda>l. (l_module l, l_action l))
     (observe_logs (snd (create_event env0 event_req sample_db))) =
     [(''h_event'', ''created''), (''h_event'', ''created'')] \<and>
   map (\<lambda>l. (l_module l, l_action l))
     (observe_logs (snd (update_event_status env0 ''HIR-2026-00001'' odd_status sample_db))) =
     [(''h_event'', ''created''), (''h_event'', ''status_updated'')] \<and>
   map (\<lambda>l. (l_module l, l_action l))
     (observe_logs (snd (activate_stop env0 stop_req sample_db))) =
     [(''h_event'', ''created''), (''h_stop'', ''activated'')] \<and>
   map (\<lambda>l. (l_module l, l_action l))
     (observe_logs (snd (release_stop env0 ''STOP-2026-00001'' release_req sample_db))) =
     [(''h_event'', ''created''), (''h_stop'', ''released'')] \<and>
   map (\<lambda>l. (l_module l, l_action l))
     (observe_logs (snd (initiate_recovery env0 recovery_req sample_db))) =
     [(''h_event'', ''created''), (''r0'', ''initiated'')] \<and>
   map (\<lambda>l. (l_module l, l_action l))
     (observe_logs (snd (update_recovery env0 ''R0-2026-00001'' status_only sample_db))) =
     [(''h_event'', ''created''), (''r0'', ''updated'')]"
proof -
  note pk = pk_sequential_sample_db
  have fe: "first (\<lambda>e. e_h_id e = ''HIR-2026-00001'') (h_events sample_db) = Some sample_event"
    by (simp add: sample_db_def sample_event_def)
  have fs: "first (\<lambda>s. s_stop_id s = ''STOP-2026-00001'') (h_stops sample_db) = Some sample_stop"
    by (simp add: sample_db_def sample_stop_def)
  have act: "s_status sample_stop \<noteq> ''released''"
    by (simp add: sample_stop_def)
  have fr: "first (\<lambda>r. r_recovery_id r = ''R0-2026-00001'') (recoveries sample_db) =
            Some sample_recovery"
    by (simp add: sample_db_def sample_recovery_def)
  have fe1: "first (\<lambda>e. e_h_id e = sc_h_id stop_req) (h_events sample_db) = Some sample_event"
    using fe by (simp add: stop_req_def)
  have fe2: "first (\<lambda>e. e_h_id e = rc_h_id recovery_req) (h_events sample_db) = Some sample_event"
    using fe by (simp add: recovery_req_def)
  have logs: "map (\<lambda>l. (l_module l, l_action l)) (observe_logs sample_db) =
              [(''h_event'', ''created'')]"
    by (simp add: sample_db_def sample_log_def)
  note all = mutations_append_one_audit_entry [where env = env0 and d = sample_db
      and event = event_req and h_id = "''HIR-2026-00001''" and su = odd_status
      and stop = stop_req and stop_id = "''STOP-2026-00001''" and release = release_req
      and recovery = recovery_req and recovery_id = "''R0-2026-00001''" and ru = status_only]
  note c1 = all [THEN conjunct1]
  note c2 = all [THEN conjunct2, THEN conjunct1]
  note c3 = all [THEN conjunct2, THEN conjunct2, THEN conjunct1]
  note c4 = all [THEN conjunct2, THEN conjunct2, THEN conjunct2, THEN conjunct1]
  note c5 = all [THEN conjunct2, THEN conjunct2, THEN conjunct2, THEN conjunct2, THEN conjunct1]
  note c6 = all [THEN conjunct2, THEN conjunct2, THEN conjunct2, THEN conjunct2, THEN conjunct2]
  have big: "sqlite_integer (rc_affected_count recovery_req)"
    by (simp add: sqlite_integer_def recovery_req_def)
  note r1 = audit_success [OF c1 create_event_fresh(1) [OF fresh_h_id [OF pk] fits_event_req]]
  note r2 = audit_success [OF c2 update_event_status_found(1) [OF fe]]
  note r3 = audit_success [OF c3 activate_stop_found(1) [OF fe1 fresh_stop_id [OF pk]]]
  note r4 = audit_success [OF c4 release_stop_ok(1) [OF fs act]]
  note r5 = audit_success [OF c5 initiate_recovery_found(1) [OF fe2 fresh_recovery_id [OF pk] big]]
  note r6 = audit_success [OF c6 update_recovery_found(1) [OF fr]]
  show ?thesis
    unfolding r1 r2 r3 r4 r5 r6 logs by simp
qed

subsection \<open>Querying the audit log\<close>

lemma dt_le_total: "\<not> dt_le a b \<Longrightarrow> dt_le b a"
  by (auto simp: dt_le_def)

lemma dt_le_trans: "dt_le a b \<Longrightarrow> dt_le b c \<Longrightarrow> dt_le a c"
  by (auto simp: dt_le_def)

lemma set_insert_desc: "set (insert_desc x ys) = insert x (set ys)"
  by (induction ys) auto

lemma length_insert_desc: "length (insert_desc x ys) = Suc (length ys)"
  by (induction ys) auto

lemma newest_first_insert_desc:
  "newest_first ys \<Longrightarrow> newest_first (insert_desc x ys)"
proof (induction ys)
  case Nil
  then show ?case by (simp add: newest_first_def)
next
  case (Cons y ys)
  show ?case
  proof (cases "dt_le (l_timestamp y) (l_timestamp x)")
    case True
    with Cons.prems show ?thesis
      by (auto simp: newest_first_def intro: dt_le_trans)
  next
    case False
    then have "dt_le (l_timestamp x) (l_timestamp y)"
      by (rule dt_le_total)
    with False Cons show ?thesis
      by (auto simp: newest_first_def set_insert_desc)
  qed
qed

lemma newest_first_order_by: "newest_first (order_by_timestamp_desc ls)"
  unfolding order_by_timestamp_desc_def
  by (induction ls) (simp_all add: newest_first_def [of "[]"] newest_first_insert_desc)

lemma set_order_by: "set (order_by_timestamp_desc ls) = set ls"
  unfolding order_by_timestamp_desc_def
  by (induction ls) (simp_all add: set_insert_desc)

lemma length_order_by: "length (order_by_timestamp_desc ls) = length ls"
  unfolding order_by_timestamp_desc_def
  by (induction ls) (simp_all add: length_insert_desc)

lemma newest_first_take: "newest_first ls \<Longrightarrow> newest_first (take n ls)"
  unfolding newest_first_def by (rule sorted_wrt_take)

lemma get_logs_accepted:
  assumes "N \<le> 1000" "sqlite_integer N"
  shows "get_logs module target_id (Some N) d =
         Inr (limit_rows N (order_by_timestamp_desc
           (filter (\<lambda>l. (truthy module \<longrightarrow> l_module l = the module) \<and>
                        (truthy target_id \<longrightarrow> l_target_id l = target_id))
              (observe_logs d))))"
  using assms by (simp add: get_logs_def Let_def)

text \<open>
  Claim C8, as stated, fails: a limit above 1000 is not capped at 1000, it is rejected
  by the bound \<^verbatim>\<open>le=1000\<close> declared on the query parameter.
\<close>

theorem get_logs_limit_counterexample:
  "get_logs None None (Some 1001) two_logs_db = Inl RequestValidationError"
  by (simp add: get_logs_def)

text \<open>
  Claim C8, amended. For a limit \<open>N\<close> from 0 to 1000 the audit query returns at most
  \<open>N\<close> entries of the log (exactly \<open>N\<close>, or all of them if there are fewer, when no
  filter is given), ordered by timestamp, newest first. A query without a limit is the
  query with limit 100. A limit above 1000 is rejected with a validation error.
\<close>

theorem get_logs_limit:
  "(0 \<le> N \<and> N \<le> 1000 \<longrightarrow>
      (case get_logs module target_id (Some N) d of
         Inl _ \<Rightarrow> False
       | Inr rows \<Rightarrow>
           int (length rows) \<le> min N 1000 \<and> newest_first rows \<and>
           set rows \<subseteq> set (observe_logs d) \<and>
           (module = None \<and> target_id = None \<longrightarrow>
              length rows = min (nat N) (length (observe_logs d))))) \<and>
   get_logs module target_id None d = get_logs module target_id (Some 100) d \<and>
   (1000 < N \<longrightarrow> get_logs module target_id (Some N) d = Inl RequestValidationError)"
proof (intro conjI impI)
  assume N: "0 \<le> N \<and> N \<le> 1000"
  let ?q = "filter (\<lambda>l. (truthy module \<longrightarrow> l_module l = the module) \<and>
                        (truthy target_id \<longrightarrow> l_target_id l = target_id)) (observe_logs d)"
  let ?rows = "limit_rows N (order_by_timestamp_desc ?q)"
  from N have rows: "?rows = take (nat N) (order_by_timestamp_desc ?q)"
    by (simp add: limit_rows_def)
  have "length ?rows \<le> nat N"
    unfolding rows by simp
  with N have len: "int (length ?rows) \<le> min N 1000"
    by arith
  have ord: "newest_first ?rows"
    unfolding rows by (rule newest_first_take [OF newest_first_order_by])
  have "set ?rows \<subseteq> set (order_by_timestamp_desc ?q)"
    unfolding rows by (rule set_take_subset)
  then have sub: "set ?rows \<subseteq> set (observe_logs d)"
    by (auto simp: set_order_by)
  have all: "length ?rows = min (nat N) (length (observe_logs d))"
    if "module = None \<and> target_id = None"
    unfolding rows using that by (simp add: truthy_def length_order_by min.commute)
  from N have "N \<le> 1000" "sqlite_integer N"
    by (simp_all add: sqlite_integer_def)
  note acc = get_logs_accepted [OF this]
  from N len ord sub all
  show "case get_logs module target_id (Some N) d of
         Inl _ \<Rightarrow> False
       | Inr rows \<Rightarrow>
           int (length rows) \<le> min N 1000 \<and> newest_first rows \<and>
           set rows \<subseteq> set (observe_logs d) \<and>
           (module = None \<and> target_id = None \<longrightarrow>
              length rows = min (nat N) (length (observe_logs d)))"
    by (simp only: acc sum.case) blast
next
  show "get_logs module target_id None d = get_logs module target_id (Some 100) d"
    by (simp add: get_logs_def)
next
  assume "1000 < N"
  then show "get_logs module target_id (Some N) d = Inl RequestValidationError"
    by (simp add: get_logs_def)
qed

theorem get_logs_limit_witness:
  "get_logs None None (Some 1) two_logs_db = Inr [newer_log] \<and>
   int (length [newer_log]) \<le> min 1 1000 \<and> newest_first [newer_log] \<and>
   get_logs None None None two_logs_db = Inr [newer_log, sample_log] \<and>
   get_logs None None (Some 5000) two_logs_db = Inl RequestValidationError"
proof -
  have ts: "\<not> dt_le (l_timestamp newer_log) (l_timestamp sample_log)"
      "dt_le (l_timestamp sample_log) (l_timestamp newer_log)"
    by (simp_all add: dt_le_def newer_log_def sample_log_def)
  have sorted: "order_by_timestamp_desc (observe_logs two_logs_db) = [newer_log, sample_log]"
    by (simp add: order_by_timestamp_desc_def two_logs_db_def ts)
  have one: "get_logs None None (Some 1) two_logs_db = Inr [newer_log]"
    by (simp add: get_logs_def truthy_def limit_rows_def sqlite_integer_def sorted)
  have hundred: "get_logs None None (Some 100) two_logs_db = Inr [newer_log, sample_log]"
    by (simp add: get_logs_def truthy_def limit_rows_def sqlite_integer_def sorted)
  from get_logs_limit [where N = 1 and module = None and target_id = None and d = two_logs_db]
    get_logs_limit [where N = 5000 and module = None and target_id = None and d = two_logs_db]
    one hundred
  show ?thesis by simp
qed

end
